theory Spec2Isabelle
  imports Complex_Main
begin

section \<open>Tensors, errors and the library primitives the sources call\<close>

text \<open>
  A tensor is its shape together with the value stored at every multi-index; only the
  values at multi-indices inside the shape are meaningful.  Floating-point entries are
  embedded as real numbers, so every statement below is about exact arithmetic.
\<close>

record 'a tensor =
  shape :: "nat list"
  elem :: "nat list \<Rightarrow> 'a"

datatype error = TypeError | ValueError | AssertionError | RuntimeError | IndexError

definition rbind :: "error + 'a \<Rightarrow> ('a \<Rightarrow> error + 'b) \<Rightarrow> error + 'b" where
  "rbind m f = (case m of Inl e \<Rightarrow> Inl e | Inr x \<Rightarrow> f x)"

definition inside :: "nat list \<Rightarrow> nat list \<Rightarrow> bool" where
  \<comment> \<open>\<open>inside s p\<close>: the multi-index \<open>p\<close> addresses an entry of a tensor of shape \<open>s\<close>.\<close>
  "inside s p = list_all2 (\<lambda>i n. i < n) p s"

definition norm_dim :: "nat \<Rightarrow> int \<Rightarrow> error + nat" where
  \<comment> \<open>PyTorch's wrapping of a possibly negative axis for a tensor of rank \<open>r\<close>.\<close>
  "norm_dim r d =
     (if - int r \<le> d \<and> d < int r then Inr (nat (if d < 0 then d + int r else d))
      else Inl IndexError)"

definition const_tensor :: "nat list \<Rightarrow> 'a \<Rightarrow> 'a tensor" where
  "const_tensor s c = \<lparr>shape = s, elem = (\<lambda>p. c)\<rparr>"

fun all_indices :: "nat list \<Rightarrow> nat list list" where
  "all_indices [] = [[]]"
| "all_indices (n # s) = concat (map (\<lambda>i. map ((#) i) (all_indices s)) [0..<n])"

definition index_select :: "'a tensor \<Rightarrow> int \<Rightarrow> int list \<Rightarrow> error + 'a tensor" where
  \<comment> \<open>\<open>t.index_select(dim, index)\<close> for a 1-D index; every entry is bounds-checked.\<close>
  "index_select t dim' idx =
     rbind (norm_dim (length (shape t)) dim') (\<lambda>d.
       if \<forall>i \<in> set idx. 0 \<le> i \<and> i < int (shape t ! d)
       then Inr \<lparr>shape = (shape t)[d := length idx],
                 elem = (\<lambda>p. elem t (p[d := nat (idx ! (p ! d))]))\<rparr>
       else Inl IndexError)"

fun cat_at :: "('a::zero) tensor list \<Rightarrow> nat \<Rightarrow> nat list \<Rightarrow> 'a" where
  "cat_at [] d p = 0"
| "cat_at (t # ts) d p =
     (if p ! d < shape t ! d then elem t p else cat_at ts d (p[d := p ! d - shape t ! d]))"

definition torch_cat :: "('a::zero) tensor option list \<Rightarrow> int \<Rightarrow> error + 'a tensor" where
  \<comment> \<open>\<open>torch.cat(tensors, dim)\<close>: a \<open>None\<close> in the list is a \<open>TypeError\<close>; 1-D empty
      tensors are skipped; the others must agree in rank and in every axis but \<open>dim\<close>.\<close>
  "torch_cat inputs dim' =
     (if inputs = [] then Inl RuntimeError
      else if None \<in> set inputs then Inl TypeError
      else
        (case filter (\<lambda>t. shape t \<noteq> [0]) (map the inputs) of
           [] \<Rightarrow> Inr (the (hd inputs))
         | t0 # ts \<Rightarrow>
             rbind (norm_dim (length (shape t0)) dim') (\<lambda>d.
               if \<forall>t \<in> set ts. (shape t)[d := 0] = (shape t0)[d := 0]
               then Inr \<lparr>shape = (shape t0)[d := sum_list (map (\<lambda>t. shape t ! d) (t0 # ts))],
                         elem = cat_at (t0 # ts) d\<rparr>
               else Inl RuntimeError)))"

definition torch_stack :: "'a tensor list \<Rightarrow> int \<Rightarrow> error + 'a tensor" where
  \<comment> \<open>\<open>torch.stack(tensors, dim)\<close>: equal shapes, a new axis of length \<open>len(tensors)\<close>.\<close>
  "torch_stack ts dim' =
     (case ts of
        [] \<Rightarrow> Inl RuntimeError
      | t0 # _ \<Rightarrow>
          rbind (norm_dim (length (shape t0) + 1) dim') (\<lambda>d.
            if \<forall>t \<in> set ts. shape t = shape t0
            then Inr \<lparr>shape = take d (shape t0) @ [length ts] @ drop d (shape t0),
                      elem = (\<lambda>p. elem (ts ! (p ! d)) (take d p @ drop (Suc d) p))\<rparr>
            else Inl RuntimeError))"

definition lane :: "'a tensor \<Rightarrow> nat \<Rightarrow> nat list \<Rightarrow> 'a list" where
  \<comment> \<open>the entries met along axis \<open>d\<close> when the other coordinates are \<open>p\<close>\<close>
  "lane t d p = map (\<lambda>j. elem t (take d p @ [j] @ drop d p)) [0..<shape t ! d]"

definition drop_axis :: "nat list \<Rightarrow> nat \<Rightarrow> nat list" where
  "drop_axis s d = take d s @ drop (Suc d) s"

definition min_of :: "real list \<Rightarrow> real" where
  "min_of xs = fold min (tl xs) (hd xs)"

definition max_of :: "real list \<Rightarrow> real" where
  "max_of xs = fold max (tl xs) (hd xs)"

definition first_index :: "real list \<Rightarrow> real \<Rightarrow> int" where
  "first_index xs m = int (length (takeWhile (\<lambda>v. v \<noteq> m) xs))"

datatype pyvalue =
    Tensor "real tensor"
  | ValuesIndices "real tensor" "int tensor"

definition torch_reduce_dim :: "string \<Rightarrow> real tensor \<Rightarrow> int \<Rightarrow> error + pyvalue" where
  \<comment> \<open>\<open>getattr(torch, name)(t, dim=dim)\<close> for the four names the model stores.
      \<open>torch.mean\<close> and \<open>torch.sum\<close> return a tensor; \<open>torch.min\<close> and \<open>torch.max\<close>
      called with \<open>dim\<close> return the pair \<open>(values, indices)\<close>, the index being that of the
      first extremal entry, and refuse an empty axis.  (The mean over an empty axis is NaN
      in PyTorch; it has no counterpart here.)\<close>
  "torch_reduce_dim name t dim' =
     rbind (norm_dim (length (shape t)) dim') (\<lambda>d.
       let s = drop_axis (shape t) d in
       if name = ''mean'' then
         Inr (Tensor \<lparr>shape = s, elem = (\<lambda>p. sum_list (lane t d p) / real (shape t ! d))\<rparr>)
       else if name = ''sum'' then
         Inr (Tensor \<lparr>shape = s, elem = (\<lambda>p. sum_list (lane t d p))\<rparr>)
       else if name = ''min'' then
         (if shape t ! d = 0 then Inl IndexError
          else Inr (ValuesIndices \<lparr>shape = s, elem = (\<lambda>p. min_of (lane t d p))\<rparr>
                      \<lparr>shape = s, elem = (\<lambda>p. first_index (lane t d p) (min_of (lane t d p)))\<rparr>))
       else if name = ''max'' then
         (if shape t ! d = 0 then Inl IndexError
          else Inr (ValuesIndices \<lparr>shape = s, elem = (\<lambda>p. max_of (lane t d p))\<rparr>
                      \<lparr>shape = s, elem = (\<lambda>p. first_index (lane t d p) (max_of (lane t d p)))\<rparr>))
       else Inl TypeError)"

definition torch_reduce_all :: "string \<Rightarrow> real tensor \<Rightarrow> error + pyvalue" where
  \<comment> \<open>the same four functions called without \<open>dim\<close>: one number for the whole tensor\<close>
  "torch_reduce_all name t =
     (let xs = map (elem t) (all_indices (shape t)) in
      if name = ''mean'' then Inr (Tensor (const_tensor [] (sum_list xs / real (length xs))))
      else if name = ''sum'' then Inr (Tensor (const_tensor [] (sum_list xs)))
      else if name = ''min'' then
        (if xs = [] then Inl RuntimeError else Inr (Tensor (const_tensor [] (min_of xs))))
      else if name = ''max'' then
        (if xs = [] then Inl RuntimeError else Inr (Tensor (const_tensor [] (max_of xs))))
      else Inl TypeError)"

fun bshape_rev :: "nat list \<Rightarrow> nat list \<Rightarrow> nat list option" where
  "bshape_rev [] ys = Some ys"
| "bshape_rev (x # xs) [] = Some (x # xs)"
| "bshape_rev (x # xs) (y # ys) =
     (if x = y \<or> y = 1 then map_option ((#) x) (bshape_rev xs ys)
      else if x = 1 then map_option ((#) y) (bshape_rev xs ys)
      else None)"

definition broadcast_shapes :: "nat list \<Rightarrow> nat list \<Rightarrow> nat list option" where
  \<comment> \<open>PyTorch's broadcasting rule: shapes are aligned at their last axis; two sizes are
      compatible when they are equal or one of them is 1.\<close>
  "broadcast_shapes a b = map_option rev (bshape_rev (rev a) (rev b))"

definition bproj :: "nat list \<Rightarrow> nat list \<Rightarrow> nat list" where
  \<comment> \<open>the entry of an operand of shape \<open>s\<close> that is read at position \<open>p\<close> of the result\<close>
  "bproj s p = map2 (\<lambda>n i. if n = 1 then 0 else i) s (drop (length p - length s) p)"

definition bin_op :: "('a \<Rightarrow> 'b \<Rightarrow> 'c) \<Rightarrow> 'a tensor \<Rightarrow> 'b tensor \<Rightarrow> error + 'c tensor" where
  \<comment> \<open>an entry-wise binary operator with broadcasting, such as \<open>a * b\<close> or \<open>a - b\<close>\<close>
  "bin_op f a b =
     (case broadcast_shapes (shape a) (shape b) of
        None \<Rightarrow> Inl RuntimeError
      | Some s \<Rightarrow>
          Inr \<lparr>shape = s,
               elem = (\<lambda>p. f (elem a (bproj (shape a) p)) (elem b (bproj (shape b) p)))\<rparr>)"

definition map_tensor :: "('a \<Rightarrow> 'b) \<Rightarrow> 'a tensor \<Rightarrow> 'b tensor" where
  "map_tensor f t = \<lparr>shape = shape t, elem = (\<lambda>p. f (elem t p))\<rparr>"

definition narrow :: "'a tensor \<Rightarrow> nat \<Rightarrow> nat \<Rightarrow> nat \<Rightarrow> 'a tensor" where
  \<comment> \<open>the slice \<open>[start, start + len)\<close> of axis \<open>d\<close>\<close>
  "narrow t d start len = \<lparr>shape = (shape t)[d := len], elem = (\<lambda>p. elem t (p[d := p ! d + start]))\<rparr>"

definition flat_index :: "nat list \<Rightarrow> nat list \<Rightarrow> nat" where
  \<comment> \<open>the row-major position of the multi-index \<open>p\<close> in a tensor of shape \<open>s\<close>\<close>
  "flat_index s p = foldl (\<lambda>acc (n, i). acc * n + i) 0 (zip s p)"

definition from_list :: "nat list \<Rightarrow> 'a list \<Rightarrow> 'a tensor" where
  \<comment> \<open>the tensor of shape \<open>s\<close> whose entries, in row-major order, are \<open>xs\<close>\<close>
  "from_list s xs = \<lparr>shape = s, elem = (\<lambda>p. xs ! flat_index s p)\<rparr>"

section \<open>functional.py: gated\_tanh\<close>

definition sigmoid :: "real \<Rightarrow> real" where
  "sigmoid x = 1 / (1 + exp (- x))"

definition tensor_split2 :: "'a tensor \<Rightarrow> int \<Rightarrow> error + ('a tensor \<times> 'a tensor)" where
  \<comment> \<open>\<open>torch.tensor_split(input, 2, dim)\<close>: two sections; when the axis has odd length the
      first section is one longer than the second.  A 0-dimensional tensor is refused.\<close>
  "tensor_split2 input dim' =
     rbind (norm_dim (length (shape input)) dim') (\<lambda>d.
       let n = shape input ! d;
           k = n div 2 + (if n mod 2 > 0 then 1 else 0)
       in Inr (narrow input d 0 k, narrow input d k (n div 2)))"

definition gated_tanh :: "real tensor \<Rightarrow> int \<Rightarrow> error + real tensor" where
  "gated_tanh input dim' =
     rbind (tensor_split2 input dim') (\<lambda>(out', gate).
       bin_op (*) (map_tensor tanh out') (map_tensor sigmoid gate))"

section \<open>functional.py: sparse\_softmax\<close>

text \<open>
  The group index is a 1-D integer tensor, embedded as a list of integers.
  \<open>maybe_num_nodes\<close> (torch\_geometric), \<open>broadcast\<close> and \<open>scatter\<close> (torch\_scatter) are
  library functions; they are written out after their documented behaviour.
\<close>

definition maybe_num_nodes :: "int list \<Rightarrow> int option \<Rightarrow> int" where
  \<comment> \<open>the given number, or \<open>max(index) + 1\<close> (0 for an empty index)\<close>
  "maybe_num_nodes index num_nodes =
     (case num_nodes of
        Some n \<Rightarrow> n
      | None \<Rightarrow> (case index of [] \<Rightarrow> 0 | i # rest \<Rightarrow> fold max rest i + 1))"

definition broadcast_index :: "int list \<Rightarrow> 'a tensor \<Rightarrow> int \<Rightarrow> error + int tensor" where
  \<comment> \<open>\<open>broadcast(index, other, dim)\<close>: the index is put on axis \<open>dim\<close> and expanded to the
      shape of \<open>other\<close>; \<open>expand\<close> accepts it when its length is that of the axis, or 1.\<close>
  "broadcast_index index other dim' =
     rbind (norm_dim (length (shape other)) dim') (\<lambda>d.
       if length index = shape other ! d \<or> length index = 1
       then Inr \<lparr>shape = shape other,
                 elem = (\<lambda>p. index ! (if length index = 1 then 0 else p ! d))\<rparr>
       else Inl RuntimeError)"

definition group_vals :: "real tensor \<Rightarrow> int tensor \<Rightarrow> nat \<Rightarrow> nat list \<Rightarrow> real list" where
  \<comment> \<open>the entries of \<open>src\<close> that a scatter along axis \<open>d\<close> sends to position \<open>p\<close>\<close>
  "group_vals src idx d p =
     map (\<lambda>j. elem src (p[d := j]))
       (filter (\<lambda>j. elem idx (p[d := j]) = int (p ! d)) [0..<shape src ! d])"

definition scatter ::
  "real tensor \<Rightarrow> int tensor \<Rightarrow> int \<Rightarrow> int \<Rightarrow> string \<Rightarrow> error + real tensor" where
  \<comment> \<open>\<open>scatter(src, index, dim, dim_size=N, reduce=...)\<close> for an index of the shape of
      \<open>src\<close>: the result has \<open>N\<close> positions along \<open>dim\<close>; position \<open>g\<close> holds the maximum
      (the sum) of the entries whose index is \<open>g\<close>, and 0 when there is none.\<close>
  "scatter src idx dim' dim_size reduce =
     rbind (norm_dim (length (shape src)) dim') (\<lambda>d.
       if dim_size < 0 \<or> shape idx \<noteq> shape src then Inl RuntimeError
       else if \<exists>p \<in> set (all_indices (shape idx)). elem idx p < 0 \<or> dim_size \<le> elem idx p
       then Inl IndexError
       else if reduce = ''max'' then
         Inr \<lparr>shape = (shape src)[d := nat dim_size],
              elem = (\<lambda>p. let vs = group_vals src idx d p in if vs = [] then 0 else max_of vs)\<rparr>
       else if reduce = ''sum'' then
         Inr \<lparr>shape = (shape src)[d := nat dim_size],
              elem = (\<lambda>p. sum_list (group_vals src idx d p))\<rparr>
       else Inl ValueError)"

definition sparse_softmax ::
  "real \<Rightarrow> real tensor \<Rightarrow> int list \<Rightarrow> int option \<Rightarrow> int \<Rightarrow> error + real tensor" where
  \<comment> \<open>the first argument is the constant \<open>tsl.epsilon\<close>, defined outside the sources at hand\<close>
  "sparse_softmax epsilon src index num_nodes dim' =
     (let N = maybe_num_nodes index num_nodes in
      rbind (broadcast_index index src dim') (\<lambda>expanded_index.
      rbind (scatter src expanded_index dim' N ''max'') (\<lambda>src_max.
      rbind (index_select src_max dim' index) (\<lambda>src_max.
      rbind (bin_op (-) src src_max) (\<lambda>diff.
      let out' = map_tensor exp diff in
      rbind (scatter out' expanded_index dim' N ''sum'') (\<lambda>out_sum.
      rbind (index_select out_sum dim' index) (\<lambda>out_sum.
      bin_op (/) out' (map_tensor (\<lambda>x. x + epsilon) out_sum))))))))"

definition group_of :: "int list \<Rightarrow> nat \<Rightarrow> nat list" where
  \<comment> \<open>the positions that the index puts in the same group as position \<open>i\<close>\<close>
  "group_of index i = filter (\<lambda>j. index ! j = index ! i) [0..<length index]"

definition shift_groups :: "real tensor \<Rightarrow> int list \<Rightarrow> nat \<Rightarrow> (int \<Rightarrow> real) \<Rightarrow> real tensor" where
  \<comment> \<open>\<open>src\<close> with the constant \<open>c g\<close> added to every entry of group \<open>g\<close> along axis \<open>d\<close>\<close>
  "shift_groups src index d c = \<lparr>shape = shape src, elem = (\<lambda>p. elem src p + c (index ! (p ! d)))\<rparr>"

definition group_max :: "real tensor \<Rightarrow> int list \<Rightarrow> nat \<Rightarrow> nat list \<Rightarrow> real" where
  \<comment> \<open>the maximum of \<open>src\<close> over the group of position \<open>p\<close>, along axis \<open>d\<close>\<close>
  "group_max src index d p = Max ((\<lambda>j. elem src (p[d := j])) ` set (group_of index (p ! d)))"

definition softmax_spec :: "real \<Rightarrow> real tensor \<Rightarrow> int list \<Rightarrow> nat \<Rightarrow> nat list \<Rightarrow> real" where
  \<comment> \<open>the contract of Segment Softmax, in the words of the specification:
      \<open>exp(src_i - max_g) / (sum over j in g of exp(src_j - max_g) + epsilon)\<close>\<close>
  "softmax_spec epsilon src index d p =
     exp (elem src p - group_max src index d p)
     / (sum_list (map (\<lambda>j. exp (elem src (p[d := j]) - group_max src index d p))
                   (group_of index (p ! d))) + epsilon)"

definition group_count_ok :: "int list \<Rightarrow> int option \<Rightarrow> bool" where
  \<comment> \<open>a group count that is given is non-negative and exceeds every entry of the index\<close>
  "group_count_ok index num_nodes =
     (case num_nodes of None \<Rightarrow> True | Some n \<Rightarrow> 0 \<le> n \<and> list_all (\<lambda>i. i < n) index)"

definition torch_dropout ::
  "real tensor \<Rightarrow> real \<Rightarrow> bool \<Rightarrow> (nat list \<Rightarrow> bool) \<Rightarrow> error + real tensor" where
  \<comment> \<open>\<open>F.dropout(input, p, training)\<close>; \<open>keep\<close> is the Bernoulli sample drawn by the call.\<close>
  "torch_dropout input p train keep =
     (if p < 0 \<or> p > 1 then Inl ValueError
      else if p = 0 \<or> \<not> train \<or> 0 \<in> set (shape input) then Inr input
      else if p = 1 then Inr (input\<lparr>elem := (\<lambda>i. 0)\<rparr>)
      else Inr (input\<lparr>elem := (\<lambda>i. if keep i then elem input i / (1 - p) else 0)\<rparr>))"

section \<open>functional.py: sparse\_multi\_head\_attention\<close>

text \<open>
  The tensors \<open>q\<close>, \<open>k\<close> and \<open>v\<close> are objects shared with the caller: the function
  receives their addresses in a heap and returns the heap it leaves behind, together with
  its result or the error it raised.  The index is a list of integers, passed by value.
\<close>

type_synonym heap = "nat \<Rightarrow> real tensor"

definition sum_dim :: "real tensor \<Rightarrow> int \<Rightarrow> error + real tensor" where
  \<comment> \<open>\<open>t.sum(dim=dim)\<close> for a tensor of rank at least 1\<close>
  "sum_dim t dim' =
     rbind (norm_dim (length (shape t)) dim') (\<lambda>d.
       Inr \<lparr>shape = drop_axis (shape t) d, elem = (\<lambda>p. sum_list (lane t d p))\<rparr>)"

fun unravel :: "nat list \<Rightarrow> nat \<Rightarrow> nat list" where
  "unravel [] k = []"
| "unravel (n # s) k = (k div prod_list s) # unravel s (k mod prod_list s)"

definition view_rows :: "'a tensor \<Rightarrow> nat \<Rightarrow> error + 'a tensor" where
  \<comment> \<open>\<open>t.view(-1, H, 1)\<close> of a contiguous tensor: the entries keep their row-major order;
      the number of entries must be a multiple of \<open>H\<close>, and \<open>H = 0\<close> is refused.\<close>
  "view_rows t H =
     (let numel = prod_list (shape t) in
      if H = 0 \<or> numel mod H \<noteq> 0 then Inl RuntimeError
      else Inr \<lparr>shape = [numel div H, H, 1],
                elem = (\<lambda>p. elem t (unravel (shape t) (p ! 0 * H + p ! 1)))\<rparr>)"

definition mul_inplace :: "real tensor \<Rightarrow> real tensor \<Rightarrow> error + real tensor" where
  \<comment> \<open>the in-place product \<open>v *= w\<close>: the broadcast shape must be the shape of \<open>v\<close>;
      the value returned is the new content of the object \<open>v\<close>\<close>
  "mul_inplace v w =
     (case broadcast_shapes (shape v) (shape w) of
        None \<Rightarrow> Inl RuntimeError
      | Some s \<Rightarrow>
          if s = shape v
          then Inr \<lparr>shape = shape v, elem = (\<lambda>p. elem v p * elem w (bproj (shape w) p))\<rparr>
          else Inl RuntimeError)"

definition torch_zeros :: "int list \<Rightarrow> error + real tensor" where
  "torch_zeros size' =
     (if list_all (\<lambda>n. 0 \<le> n) size' then Inr (const_tensor (map nat size') 0)
      else Inl RuntimeError)"

definition scatter_add_inplace ::
  "real tensor \<Rightarrow> int \<Rightarrow> int tensor \<Rightarrow> real tensor \<Rightarrow> error + real tensor" where
  \<comment> \<open>\<open>self.scatter_add_(dim, index, src)\<close>: the three tensors have the same rank, the
      index is no larger than \<open>src\<close> on any axis and no larger than \<open>self\<close> on any axis but
      \<open>dim\<close>, and its entries address \<open>self\<close> along \<open>dim\<close>.\<close>
  "scatter_add_inplace self dim' idx src =
     rbind (norm_dim (length (shape self)) dim') (\<lambda>d.
       if length (shape idx) \<noteq> length (shape self) \<or> length (shape src) \<noteq> length (shape self)
       then Inl RuntimeError
       else if \<not> list_all2 (\<le>) (shape idx) (shape src)
               \<or> list_ex (\<lambda>i. i \<noteq> d \<and> shape self ! i < shape idx ! i) [0..<length (shape self)]
       then Inl RuntimeError
       else if \<exists>p \<in> set (all_indices (shape idx)).
                 elem idx p < 0 \<or> int (shape self ! d) \<le> elem idx p
       then Inl RuntimeError
       else Inr (self\<lparr>elem := (\<lambda>p. elem self p
                   + sum_list (map (\<lambda>j. elem src (p[d := j]))
                       (filter (\<lambda>j. inside (shape idx) (p[d := j]) \<and> elem idx (p[d := j]) = int (p ! d))
                          [0..<shape idx ! d])))\<rparr>))"

definition attention_weights ::
  "real \<Rightarrow> (nat list \<Rightarrow> bool) \<Rightarrow> real tensor \<Rightarrow> real tensor \<Rightarrow> nat \<Rightarrow> int list \<Rightarrow> int \<Rightarrow> real
     \<Rightarrow> error + real tensor" where
  \<comment> \<open>lines 119 to 122: the scores, their segment softmax, and the optional dropout
      (\<open>F.dropout\<close> is called with its default \<open>training=True\<close>)\<close>
  "attention_weights epsilon keep q k E index N dropout_p =
     rbind (bin_op (*) q k) (\<lambda>qk.
     rbind (sum_dim qk (- 1)) (\<lambda>s.
     rbind (sparse_softmax epsilon (map_tensor (\<lambda>x. x / sqrt (real E)) s) index (Some N) 0) (\<lambda>alpha.
     if dropout_p > 0 then torch_dropout alpha dropout_p True keep else Inr alpha)))"

definition sparse_multi_head_attention ::
  "real \<Rightarrow> (nat list \<Rightarrow> bool) \<Rightarrow> heap \<Rightarrow> nat \<Rightarrow> nat \<Rightarrow> nat \<Rightarrow> int list \<Rightarrow> int option \<Rightarrow> real
     \<Rightarrow> (error + real tensor \<times> real tensor) \<times> heap" where
  \<comment> \<open>\<open>epsilon\<close> is \<open>tsl.epsilon\<close>, \<open>keep\<close> the sample drawn by the dropout, \<open>h\<close> the heap
      at the call; \<open>q\<close>, \<open>k\<close>, \<open>v\<close> are addresses.  For \<open>E = 0\<close> PyTorch divides by
      \<open>0.0\<close> and yields NaN, which has no counterpart here.\<close>
  "sparse_multi_head_attention epsilon keep h q k v index dim_size dropout_p =
     (case shape (h q) of
        [B, H, E] \<Rightarrow>
          (let N = maybe_num_nodes index dim_size in
           case attention_weights epsilon keep (h q) (h k) E index N dropout_p of
             Inl e \<Rightarrow> (Inl e, h)
           | Inr alpha \<Rightarrow>
               (case rbind (view_rows alpha H) (mul_inplace (h v)) of
                  Inl e \<Rightarrow> (Inl e, h)
                | Inr v' \<Rightarrow>
                    (rbind (if length (shape v') \<le> 2 then Inl IndexError
                            else torch_zeros [N, int H, int (shape v' ! 2)]) (\<lambda>out'.
                     rbind (broadcast_index index v' 0) (\<lambda>add_index.
                     rbind (scatter_add_inplace out' 0 add_index v') (\<lambda>out'.
                     Inr (out', alpha)))),
                     h(v := v'))))
      | _ \<Rightarrow> (Inl ValueError, h))"

definition keep_all :: "nat list \<Rightarrow> bool" where
  \<comment> \<open>the dropout sample that keeps every entry\<close>
  "keep_all p = True"

definition demo_heap :: heap where
  \<comment> \<open>two elements of one group, one head: \<open>q\<close> at address 0, \<open>k\<close> at 1, \<open>v\<close> at 2\<close>
  "demo_heap a = from_list [2, 1, 1] (if a = 2 then [3, 4] else [1, 1])"

definition demo_heap_E :: heap where
  \<comment> \<open>one element, one head: \<open>q\<close> at address 0 with \<open>E = 2\<close>, \<open>k\<close> at 1 with \<open>E = 1\<close>,
      \<open>v\<close> at 2\<close>
  "demo_heap_E a =
     (if a = 0 then from_list [1, 1, 2] [1, 2]
      else if a = 1 then from_list [1, 1, 1] [3] else from_list [1, 1, 1] [1])"

definition group_weight_sum :: "real tensor \<Rightarrow> int list \<Rightarrow> nat \<Rightarrow> nat \<Rightarrow> real" where
  \<comment> \<open>the sum of the attention weights of head \<open>a\<close> over the group of element \<open>s\<close>\<close>
  "group_weight_sum alpha index s a = sum_list (map (\<lambda>j. elem alpha [j, a]) (group_of index s))"




definition demo_shift :: "int \<Rightarrow> real" where
  \<comment> \<open>a per-group constant used to exercise the shift invariance\<close>
  "demo_shift g = (if g = 0 then 10 else - 3)"

section \<open>GRINModel: construction\<close>

record linear =
  weight :: "real tensor"
  bias :: "real tensor"

datatype out_module =
    Sequential linear real linear
  | TorchFn string

type_synonym ('adj, 'st) gril =
  "real tensor \<Rightarrow> 'adj \<Rightarrow> real tensor option \<Rightarrow> real tensor option \<Rightarrow> real tensor option
     \<Rightarrow> error + (real tensor \<times> real tensor \<times> real tensor \<times> 'st)"

record ('adj, 'st) GRINModel =
  fwd_gril :: "('adj, 'st) gril"
  bwd_gril :: "('adj, 'st) gril"
  emb :: "real tensor option"
  merge_mode :: string
  out :: out_module
  training :: bool

text \<open>
  \<open>GRIL\<close>, \<open>StaticGraphEmbedding\<close> and \<open>nn.Linear\<close> are constructed outside the
  sources at hand: they are parameters.  Their first argument counts the calls, since each
  call draws fresh initial weights.  \<open>nn.Dropout(p)\<close> raises \<open>ValueError\<close> unless
  \<open>0 \<le> p \<le> 1\<close>.
\<close>

definition GRINModel_init ::
  "(nat \<Rightarrow> int \<Rightarrow> int \<Rightarrow> int option \<Rightarrow> int \<Rightarrow> real \<Rightarrow> int \<Rightarrow> int \<Rightarrow> int option \<Rightarrow> bool
      \<Rightarrow> error + ('adj, 'st) gril)
   \<Rightarrow> (int \<Rightarrow> int \<Rightarrow> error + real tensor)
   \<Rightarrow> (nat \<Rightarrow> int \<Rightarrow> int \<Rightarrow> error + linear)
   \<Rightarrow> int \<Rightarrow> int \<Rightarrow> int \<Rightarrow> int option \<Rightarrow> int option \<Rightarrow> int \<Rightarrow> int option \<Rightarrow> int \<Rightarrow> int
   \<Rightarrow> bool \<Rightarrow> real \<Rightarrow> real \<Rightarrow> string \<Rightarrow> error + ('adj, 'st) GRINModel" where
  "GRINModel_init new_GRIL new_Embedding new_Linear
      input_size hidden_size ff_size embedding_size exog_size n_layers n_nodes kernel_size
      decoder_order layer_norm dropout ff_dropout merge_mode' =
   rbind (new_GRIL 0 input_size hidden_size exog_size n_layers dropout kernel_size
            decoder_order n_nodes layer_norm) (\<lambda>fg.
   rbind (new_GRIL 1 input_size hidden_size exog_size n_layers dropout kernel_size
            decoder_order n_nodes layer_norm) (\<lambda>bg.
   rbind (case embedding_size of
            Some e \<Rightarrow>
              (case n_nodes of
                 None \<Rightarrow> Inl AssertionError
               | Some n \<Rightarrow> rbind (new_Embedding n e) (\<lambda>t. Inr (Some t)))
          | None \<Rightarrow> Inr None) (\<lambda>em.
   if merge_mode' = ''mlp'' then
     (case embedding_size of
        None \<Rightarrow> Inl TypeError
      | Some e \<Rightarrow>
          (let in_channels = 4 * hidden_size + input_size + e in
           rbind (new_Linear 0 in_channels ff_size) (\<lambda>l1.
           if ff_dropout < 0 \<or> ff_dropout > 1 then Inl ValueError
           else
           rbind (new_Linear 1 ff_size input_size) (\<lambda>l2.
           Inr \<lparr>fwd_gril = fg, bwd_gril = bg, emb = em, merge_mode = merge_mode',
                out = Sequential l1 ff_dropout l2, training = True\<rparr>))))
   else if merge_mode' \<in> set [''mean'', ''sum'', ''min'', ''max''] then
     Inr \<lparr>fwd_gril = fg, bwd_gril = bg, emb = em, merge_mode = merge_mode',
          out = TorchFn merge_mode', training = True\<rparr>
   else Inl ValueError)))"

section \<open>GRINModel: forward\<close>

definition reverse_tensor :: "'a tensor \<Rightarrow> int \<Rightarrow> error + 'a tensor" where
  \<comment> \<open>\<open>tensor.size(dim)\<close> raises for an axis the tensor does not have.\<close>
  "reverse_tensor tensor dim' =
     rbind (norm_dim (length (shape tensor)) dim') (\<lambda>d.
       let indices = map int (rev [0..<shape tensor ! d]) in
       index_select tensor dim' indices)"

definition relu :: "real tensor \<Rightarrow> real tensor" where
  "relu x = x\<lparr>elem := (\<lambda>p. max 0 (elem x p))\<rparr>"

definition linear_forward :: "linear \<Rightarrow> real tensor \<Rightarrow> error + real tensor" where
  \<comment> \<open>\<open>nn.Linear.forward\<close>: \<open>x @ weight.T + bias\<close> over the last axis of \<open>x\<close>.\<close>
  "linear_forward l x =
     (case shape (weight l) of
        [n_out, n_in] \<Rightarrow>
          if shape (bias l) = [n_out] \<and> shape x \<noteq> [] \<and> last (shape x) = n_in
          then Inr \<lparr>shape = butlast (shape x) @ [n_out],
                    elem = (\<lambda>p. sum_list (map (\<lambda>i. elem x (butlast p @ [i])
                                                     * elem (weight l) [last p, i]) [0..<n_in])
                                + elem (bias l) [last p])\<rparr>
          else Inl RuntimeError
      | _ \<Rightarrow> Inl RuntimeError)"

definition emb_forward :: "real tensor \<Rightarrow> nat \<Rightarrow> nat \<Rightarrow> error + real tensor" where
  \<comment> \<open>Modelled from the spec: \<open>StaticGraphEmbedding.forward(expand=(b, s, -1, -1))\<close> is
      missing from the sources; the table of shape \<open>[n_nodes, embedding_size]\<close> is broadcast
      across batch and time.\<close>
  "emb_forward table b s =
     (case shape table of
        [n, e] \<Rightarrow> Inr \<lparr>shape = [b, s, n, e], elem = (\<lambda>p. elem table (drop 2 p))\<rparr>
      | _ \<Rightarrow> Inl RuntimeError)"

definition call_out :: "out_module \<Rightarrow> bool \<Rightarrow> (nat list \<Rightarrow> bool) \<Rightarrow> real tensor \<Rightarrow> error + pyvalue" where
  \<comment> \<open>\<open>self.out(imputation)\<close>\<close>
  "call_out m train keep x =
     (case m of
        Sequential l1 p l2 \<Rightarrow>
          rbind (linear_forward l1 x) (\<lambda>h.
          rbind (torch_dropout (relu h) p train keep) (\<lambda>h'.
          rbind (linear_forward l2 h') (\<lambda>y. Inr (Tensor y))))
      | TorchFn name \<Rightarrow> torch_reduce_all name x)"

definition call_out_dim :: "out_module \<Rightarrow> real tensor \<Rightarrow> int \<Rightarrow> error + pyvalue" where
  \<comment> \<open>\<open>self.out(imputation, dim=-1)\<close>; a \<open>Sequential\<close> takes no keyword \<open>dim\<close>.\<close>
  "call_out_dim m x dim' =
     (case m of
        Sequential l1 p l2 \<Rightarrow> Inl TypeError
      | TorchFn name \<Rightarrow> torch_reduce_dim name x dim')"

definition reverse_opt :: "'a tensor option \<Rightarrow> error + 'a tensor option" where
  \<comment> \<open>\<open>reverse_tensor(t, dim=1) if t is not None else None\<close>\<close>
  "reverse_opt t =
     (case t of None \<Rightarrow> Inr None | Some t' \<Rightarrow> rbind (reverse_tensor t' 1) (\<lambda>r. Inr (Some r)))"

definition forward ::
  "('adj, 'st) GRINModel \<Rightarrow> (nat list \<Rightarrow> bool) \<Rightarrow> real tensor \<Rightarrow> 'adj \<Rightarrow> real tensor option
     \<Rightarrow> real tensor option \<Rightarrow> real tensor option
     \<Rightarrow> error + (pyvalue \<times> real tensor \<times> real tensor \<times> real tensor \<times> real tensor)" where
  "forward self keep x edge_index edge_weight mask' u =
     rbind (fwd_gril self x edge_index edge_weight mask' u) (\<lambda>(fwd_out, fwd_pred, fwd_repr, _).
     rbind (reverse_tensor x 1) (\<lambda>rev_x.
     rbind (reverse_opt mask') (\<lambda>rev_mask.
     rbind (reverse_opt u) (\<lambda>rev_u.
     rbind (bwd_gril self rev_x edge_index edge_weight rev_mask rev_u) (\<lambda>(bwd0, bwd1, bwd2, _).
     rbind (reverse_tensor bwd0 1) (\<lambda>bwd_out.
     rbind (reverse_tensor bwd1 1) (\<lambda>bwd_pred.
     rbind (reverse_tensor bwd2 1) (\<lambda>bwd_repr.
     rbind
       (if merge_mode self = ''mlp'' then
          rbind
            (case emb self of
               Some table \<Rightarrow>
                 (case shape fwd_repr of
                    b # s # _ \<Rightarrow>
                      rbind (emb_forward table b s) (\<lambda>e.
                        Inr [Some fwd_repr, Some bwd_repr, mask', Some e])
                  | _ \<Rightarrow> Inl ValueError)
             | None \<Rightarrow> Inr [Some fwd_repr, Some bwd_repr, mask']) (\<lambda>inputs.
          rbind (torch_cat inputs (- 1)) (\<lambda>imputation.
          call_out (out self) (training self) keep imputation))
        else
          rbind (torch_stack [fwd_out, bwd_out] (- 1)) (\<lambda>imputation.
          call_out_dim (out self) imputation (- 1))) (\<lambda>imputation.
     Inr (imputation, fwd_out, bwd_out, fwd_pred, bwd_pred))))))))))"

section \<open>Concrete collaborators used to exercise the model\<close>

definition lag :: "real tensor \<Rightarrow> real tensor" where
  \<comment> \<open>delays a sequence by one step along the time axis, filling with zero\<close>
  "lag x = x\<lparr>elem := (\<lambda>p. if p ! 1 = 0 then 0 else elem x (p[1 := p ! 1 - 1]))\<rparr>"

definition lag_gril :: "(unit, unit) gril" where
  \<comment> \<open>a stand-in cell: output and prediction at time \<open>t\<close> are the input at time \<open>t - 1\<close>,
      the representation repeats the input\<close>
  "lag_gril x edge_index edge_weight mask' u =
     (if length (shape x) < 2 then Inl RuntimeError else Inr (lag x, lag x, x, ()))"

definition stub_GRIL ::
  "nat \<Rightarrow> int \<Rightarrow> int \<Rightarrow> int option \<Rightarrow> int \<Rightarrow> real \<Rightarrow> int \<Rightarrow> int \<Rightarrow> int option \<Rightarrow> bool
     \<Rightarrow> error + (unit, unit) gril" where
  "stub_GRIL k input_size hidden_size exog_size n_layers dropout kernel_size decoder_order
     n_nodes layer_norm = Inr lag_gril"

definition stub_Embedding :: "int \<Rightarrow> int \<Rightarrow> error + real tensor" where
  "stub_Embedding n e = Inr (const_tensor [nat n, nat e] 0)"

definition stub_Linear :: "nat \<Rightarrow> int \<Rightarrow> int \<Rightarrow> error + linear" where
  "stub_Linear k n_in n_out =
     Inr \<lparr>weight = const_tensor [nat n_out, nat n_in] 0, bias = const_tensor [nat n_out] 0\<rparr>"

definition ramp :: "nat list \<Rightarrow> real tensor" where
  \<comment> \<open>a test tensor whose entry at \<open>[b, t, n, f]\<close> is the time coordinate \<open>t\<close>\<close>
  "ramp s = \<lparr>shape = s, elem = (\<lambda>p. real (p ! 1))\<rparr>"

definition demo_reduce_model :: "string \<Rightarrow> (unit, unit) GRINModel" where
  \<comment> \<open>what \<open>GRINModel(4, merge_mode=name)\<close> builds from the stand-ins\<close>
  "demo_reduce_model name =
     \<lparr>fwd_gril = lag_gril, bwd_gril = lag_gril, emb = None, merge_mode = name,
      out = TorchFn name, training = True\<rparr>"

definition demo_mlp_model :: "(unit, unit) GRINModel" where
  \<comment> \<open>what \<open>GRINModel(4, embedding_size=8, n_nodes=3)\<close> builds from the stand-ins\<close>
  "demo_mlp_model =
     \<lparr>fwd_gril = lag_gril, bwd_gril = lag_gril, emb = Some (const_tensor [3, 8] 0),
      merge_mode = ''mlp'',
      out = Sequential \<lparr>weight = const_tensor [128, 268] 0, bias = const_tensor [128] 0\<rparr> 0
                       \<lparr>weight = const_tensor [4, 128] 0, bias = const_tensor [4] 0\<rparr>,
      training = True\<rparr>"

section \<open>Properties of the construction\<close>

lemma rbind_Inl [simp]: "rbind (Inl e) f = Inl e"
  by (simp add: rbind_def)

lemma rbind_Inr [simp]: "rbind (Inr x) f = f x"
  by (simp add: rbind_def)

lemma isl_rbind: "isl (rbind m f) = (isl m \<or> (\<exists>x. m = Inr x \<and> isl (f x)))"
  by (cases m) simp_all

text \<open>
  C9.  Construction rejects invalid configurations: a merge mode outside
  mlp, mean, sum, min, max makes the constructor raise, and so does an embedding size given
  without a number of nodes.  When the recurrent cells (and the embedding table) were built,
  the errors are the \<open>ValueError\<close> of the last branch, respectively the failed assertion.
\<close>

theorem GRINModel_init_rejects_invalid:
  "(mm \<notin> {''mlp'', ''mean'', ''sum'', ''min'', ''max''} \<longrightarrow>
      isl (GRINModel_init ng ne nl isz hs ff es xs nlay nn ks dord lnorm dr fdr mm))
   \<and> (mm \<notin> {''mlp'', ''mean'', ''sum'', ''min'', ''max''}
        \<and> \<not> isl (ng 0 isz hs xs nlay dr ks dord nn lnorm)
        \<and> \<not> isl (ng 1 isz hs xs nlay dr ks dord nn lnorm)
        \<and> (es = None \<or> (nn \<noteq> None \<and> \<not> isl (ne (the nn) (the es)))) \<longrightarrow>
      GRINModel_init ng ne nl isz hs ff es xs nlay nn ks dord lnorm dr fdr mm
        = Inl ValueError)
   \<and> (es \<noteq> None \<and> nn = None \<longrightarrow>
      isl (GRINModel_init ng ne nl isz hs ff es xs nlay nn ks dord lnorm dr fdr mm))
   \<and> (es \<noteq> None \<and> nn = None
        \<and> \<not> isl (ng 0 isz hs xs nlay dr ks dord nn lnorm)
        \<and> \<not> isl (ng 1 isz hs xs nlay dr ks dord nn lnorm) \<longrightarrow>
      GRINModel_init ng ne nl isz hs ff es xs nlay nn ks dord lnorm dr fdr mm
        = Inl AssertionError)"
  by (cases "ng 0 isz hs xs nlay dr ks dord nn lnorm";
      cases "ng 1 isz hs xs nlay dr ks dord nn lnorm";
      cases es; cases nn; cases "ne (the nn) (the es)")
     (simp_all add: GRINModel_init_def)

theorem GRINModel_init_rejects_invalid_witness:
  "''concat'' \<notin> {''mlp'', ''mean'', ''sum'', ''min'', ''max''}
   \<and> GRINModel_init stub_GRIL stub_Embedding stub_Linear
         4 64 128 (Some 8) None 1 (Some 3) 2 1 False 0 0 ''concat'' = Inl ValueError
   \<and> Some (8::int) \<noteq> None
   \<and> GRINModel_init stub_GRIL stub_Embedding stub_Linear
         4 64 128 (Some 8) None 1 None 2 1 False 0 0 ''mlp'' = Inl AssertionError"
  using GRINModel_init_rejects_invalid
          [of "''concat''" stub_GRIL stub_Embedding stub_Linear 4 64 128 "Some 8" None 1
              "Some 3" 2 1 False 0 0]
        GRINModel_init_rejects_invalid
          [of "''mlp''" stub_GRIL stub_Embedding stub_Linear 4 64 128 "Some 8" None 1
              None 2 1 False 0 0]
  by (simp add: stub_GRIL_def stub_Embedding_def)

lemma demo_reduce_model_constructed:
  "name \<in> {''mean'', ''sum'', ''min'', ''max''} \<Longrightarrow>
   GRINModel_init stub_GRIL stub_Embedding stub_Linear 4 64 128 None None 1 None 2 1 False 0 0 name
     = Inr (demo_reduce_model name)"
  by (auto simp: GRINModel_init_def stub_GRIL_def demo_reduce_model_def)

lemma demo_mlp_model_constructed:
  "GRINModel_init stub_GRIL stub_Embedding stub_Linear
      4 64 128 (Some 8) None 1 (Some 3) 2 1 False 0 0 ''mlp'' = Inr demo_mlp_model"
  by (simp add: GRINModel_init_def stub_GRIL_def stub_Embedding_def stub_Linear_def
        demo_mlp_model_def)

text \<open>
  C1.  With the default \<open>embedding_size=None\<close> the constructor of an mlp model never
  returns a model: computing \<open>in_channels\<close> adds \<open>None\<close> to an integer.
\<close>

theorem GRINModel_init_mlp_without_embedding_fails:
  "isl (GRINModel_init ng ne nl isz hs ff None xs nlay nn ks dord lnorm dr fdr ''mlp'')
   \<and> GRINModel_init stub_GRIL stub_Embedding stub_Linear
         1 64 128 None None 1 None 2 1 False 0 0 ''mlp'' = Inl TypeError"
  by (cases "ng 0 isz hs xs nlay dr ks dord nn lnorm";
      cases "ng 1 isz hs xs nlay dr ks dord nn lnorm")
     (simp_all add: GRINModel_init_def stub_GRIL_def)

section \<open>Properties of the forward call\<close>

lemma rbind_eq_Inr: "(rbind m f = Inr y) = (\<exists>x. m = Inr x \<and> f x = Inr y)"
  by (cases m) auto

lemma torch_cat_None: "None \<in> set inputs \<Longrightarrow> torch_cat inputs d = Inl TypeError"
  by (auto simp: torch_cat_def)

lemma mlp_inputs_without_mask:
  "(case em of
      Some table \<Rightarrow>
        (case shape r of
           b # s # _ \<Rightarrow> rbind (emb_forward table b s) (\<lambda>e. Inr [Some r, Some br, None, Some e])
         | _ \<Rightarrow> Inl ValueError)
    | None \<Rightarrow> Inr [Some r, Some br, None]) = Inr inputs \<Longrightarrow> None \<in> set inputs"
  by (auto simp: rbind_eq_Inr split: option.splits list.splits)

lemma forward_mlp_None_not_Inr:
  "merge_mode self = ''mlp'' \<Longrightarrow> forward self keep x ei ew None u \<noteq> Inr y"
  unfolding forward_def
  by (auto simp: rbind_eq_Inr torch_cat_None split: prod.splits dest!: mlp_inputs_without_mask)

text \<open>
  C10.  A model whose merge mode is mlp cannot be run without a mask: with
  \<open>mask=None\<close> the forward call raises, whatever the cells, the input and the other
  arguments are, because \<open>None\<close> is put among the tensors to concatenate.
\<close>

theorem forward_mlp_requires_mask:
  "merge_mode self = ''mlp'' \<Longrightarrow> isl (forward self keep x ei ew None u)"
  by (cases "forward self keep x ei ew None u") (simp_all add: forward_mlp_None_not_Inr)

theorem forward_mlp_requires_mask_witness:
  "merge_mode demo_mlp_model = ''mlp''
   \<and> isl (forward demo_mlp_model (\<lambda>p. True) (ramp [2, 5, 3, 4]) () None None None)"
  using forward_mlp_requires_mask [of demo_mlp_model "\<lambda>p. True" "ramp [2, 5, 3, 4]" "()" None None]
  by (simp add: demo_mlp_model_def)

text \<open>
  C4.  For the merge modes min and max the value returned as imputation is not a tensor:
  \<open>torch.min\<close> and \<open>torch.max\<close> called with \<open>dim\<close> return the pair of the extremal
  values and their indices, and the forward call passes that pair on.
\<close>

theorem forward_min_max_returns_pair:
  "merge_mode self \<in> {''min'', ''max''} \<Longrightarrow> out self = TorchFn (merge_mode self) \<Longrightarrow>
   forward self keep x ei ew m u = Inr (imp, aux) \<Longrightarrow> \<exists>v i. imp = ValuesIndices v i"
  unfolding forward_def
  by (auto simp: rbind_eq_Inr call_out_dim_def torch_reduce_dim_def Let_def
           split: prod.splits if_splits)

lemma fwd_min_runs:
  "\<not> isl (forward (demo_reduce_model ''min'') (\<lambda>p. True) (ramp [2, 5, 3, 4]) () None
            (Some (const_tensor [2, 5, 3, 4] 1)) None)"
  by (simp add: forward_def demo_reduce_model_def lag_gril_def ramp_def reverse_tensor_def
        reverse_opt_def index_select_def norm_dim_def torch_stack_def call_out_dim_def
        torch_reduce_dim_def const_tensor_def lag_def Let_def)

theorem forward_min_max_returns_pair_witness:
  "merge_mode (demo_reduce_model ''min'') \<in> {''min'', ''max''}
   \<and> out (demo_reduce_model ''min'') = TorchFn (merge_mode (demo_reduce_model ''min''))
   \<and> \<not> isl (forward (demo_reduce_model ''min'') (\<lambda>p. True) (ramp [2, 5, 3, 4]) () None
              (Some (const_tensor [2, 5, 3, 4] 1)) None)
   \<and> (\<exists>v i. fst (projr (forward (demo_reduce_model ''min'') (\<lambda>p. True) (ramp [2, 5, 3, 4]) ()
                None (Some (const_tensor [2, 5, 3, 4] 1)) None)) = ValuesIndices v i)"
proof -
  let ?F = "forward (demo_reduce_model ''min'') (\<lambda>p. True) (ramp [2, 5, 3, 4]) () None
              (Some (const_tensor [2, 5, 3, 4] 1)) None"
  have run: "\<not> isl ?F" by (rule fwd_min_runs)
  then have eq: "?F = Inr (fst (projr ?F), snd (projr ?F))" by simp
  have mm: "merge_mode (demo_reduce_model ''min'') \<in> {''min'', ''max''}"
    and ou: "out (demo_reduce_model ''min'') = TorchFn (merge_mode (demo_reduce_model ''min''))"
    by (simp_all add: demo_reduce_model_def)
  from forward_min_max_returns_pair [OF mm ou eq] run mm ou show ?thesis by blast
qed

text \<open>
  For the merge modes mean and sum the imputation is one tensor of the shape of the two
  directional outputs, holding their entry-wise mean, respectively sum.
\<close>

lemma stack_pair_last:
  "shape a = shape b \<Longrightarrow>
   torch_stack [a, b] (- 1) =
     Inr \<lparr>shape = shape a @ [2],
          elem = (\<lambda>p. elem ([a, b] ! (p ! length (shape a)))
                        (take (length (shape a)) p @ drop (Suc (length (shape a))) p))\<rparr>"
  by (simp add: torch_stack_def norm_dim_def)

lemma stack_pair_last_mismatch:
  "shape a \<noteq> shape b \<Longrightarrow> torch_stack [a, b] (- 1) = Inl RuntimeError"
  by (auto simp: torch_stack_def norm_dim_def)

lemma forward_mean_sum:
  assumes "merge_mode self = name" "name \<in> {''mean'', ''sum''}" "out self = TorchFn name"
    and "forward self keep x ei ew m u = Inr (imp, fo, bo, fp, bp)"
  shows "\<exists>t. imp = Tensor t \<and> shape t = shape fo \<and> shape bo = shape fo \<and>
           (\<forall>p. length p = length (shape fo) \<longrightarrow>
                elem t p = (if name = ''mean'' then (elem fo p + elem bo p) / 2
                            else elem fo p + elem bo p))"
proof -
  from assms obtain st where
    st: "torch_stack [fo, bo] (- 1) = Inr st" and
    red: "torch_reduce_dim name st (- 1) = Inr imp"
    unfolding forward_def
    by (auto simp: rbind_eq_Inr call_out_dim_def split: prod.splits if_splits)
  have sh: "shape fo = shape bo"
    using st stack_pair_last_mismatch [of fo bo] by (cases "shape fo = shape bo") auto
  let ?r = "length (shape fo)"
  have st_eq: "st = \<lparr>shape = shape fo @ [2],
          elem = (\<lambda>p. elem ([fo, bo] ! (p ! ?r)) (take ?r p @ drop (Suc ?r) p))\<rparr>"
    using st stack_pair_last [OF sh] by simp
  have lane: "lane st ?r p = [elem fo p, elem bo p]" if "length p = ?r" for p
  proof -
    have u: "[0..<2] = [0, Suc 0]" by (simp add: upt_rec)
    show ?thesis using that by (simp add: lane_def st_eq nth_append u)
  qed
  show ?thesis
    using red assms(2) sh lane
    by (auto simp: torch_reduce_dim_def norm_dim_def st_eq drop_axis_def Let_def)
qed

section \<open>Broadcasting\<close>

lemma bshape_rev_same_length:
  "length xs = length ys \<Longrightarrow>
   bshape_rev xs ys =
     (if \<forall>i<length xs. xs ! i = ys ! i \<or> ys ! i = 1 \<or> xs ! i = 1
      then Some (map2 (\<lambda>x y. if x = 1 then y else x) xs ys) else None)"
proof (induction xs ys rule: list_induct2)
  case Nil
  then show ?case by simp
next
  case (Cons x xs y ys)
  show ?case
    using Cons.IH by (auto simp: All_less_Suc2 less_Suc_eq_0_disj)
qed

lemma broadcast_shapes_same_length:
  assumes "length a = length b"
  shows "broadcast_shapes a b =
     (if \<forall>i<length a. a ! i = b ! i \<or> b ! i = 1 \<or> a ! i = 1
      then Some (map2 (\<lambda>x y. if x = 1 then y else x) a b) else None)"
proof -
  have len: "length (rev a) = length (rev b)" using assms by simp
  have iff: "(\<forall>i<length (rev a). rev a ! i = rev b ! i \<or> rev b ! i = 1 \<or> rev a ! i = 1)
         = (\<forall>i<length a. a ! i = b ! i \<or> b ! i = 1 \<or> a ! i = 1)" (is "?L = ?R")
  proof
    assume L: ?L
    show ?R
    proof (intro allI impI)
      fix i assume i: "i < length a"
      then have "length a - Suc i < length (rev a)" by simp
      from L [rule_format, OF this] i assms show "a ! i = b ! i \<or> b ! i = 1 \<or> a ! i = 1"
        by (simp add: rev_nth)
    qed
  next
    assume R: ?R
    show ?L
    proof (intro allI impI)
      fix i assume i: "i < length (rev a)"
      then have "length a - Suc i < length a" by simp
      from R [rule_format, OF this] i assms
      show "rev a ! i = rev b ! i \<or> rev b ! i = 1 \<or> rev a ! i = 1"
        by (simp add: rev_nth)
    qed
  qed
  have rv: "rev (map2 (\<lambda>x y. if x = 1 then y else x) (rev a) (rev b))
          = map2 (\<lambda>x y. if x = 1 then y else x) a b"
    using assms by (simp add: rev_map [symmetric] zip_rev)
  show ?thesis
    unfolding broadcast_shapes_def bshape_rev_same_length [OF len] iff
    using rv by simp
qed

lemma broadcast_shapes_update:
  assumes "d < length s"
  shows "broadcast_shapes (s[d := k]) (s[d := m]) =
     (if k = m \<or> m = 1 \<or> k = 1 then Some (s[d := (if k = 1 then m else k)]) else None)"
proof -
  have c: "(\<forall>i<length (s[d := k]). s[d := k] ! i = s[d := m] ! i \<or> s[d := m] ! i = 1 \<or> s[d := k] ! i = 1)
        = (k = m \<or> m = 1 \<or> k = 1)"
    using assms by (auto simp: nth_list_update)
  have r: "map2 (\<lambda>x y. if x = 1 then y else x) (s[d := k]) (s[d := m]) = s[d := (if k = 1 then m else k)]"
    using assms by (auto simp: list_eq_iff_nth_eq nth_list_update)
  show ?thesis
    using broadcast_shapes_same_length [of "s[d := k]" "s[d := m]"] c r by simp
qed

lemma inside_length: "inside s p \<Longrightarrow> length p = length s"
  by (simp add: inside_def list_all2_lengthD)

lemma inside_nth: "inside s p \<Longrightarrow> i < length s \<Longrightarrow> p ! i < s ! i"
  by (simp add: inside_def list_all2_conv_all_nth)

lemma bproj_update:
  assumes "inside (s[d := r]) p" "d < length s"
  shows "bproj (s[d := k]) p = p[d := (if k = 1 then 0 else p ! d)]"
proof -
  have len: "length p = length s" using inside_length [OF assms(1)] by simp
  have "p ! i = 0" if "i < length s" "i \<noteq> d" "s ! i = 1" for i
    using inside_nth [OF assms(1), of i] that by simp
  then show ?thesis
    using len assms(2) by (auto simp: bproj_def list_eq_iff_nth_eq nth_list_update)
qed

section \<open>Properties of gated\_tanh\<close>

lemma gated_tanh_unfold:
  assumes "norm_dim (length (shape input)) dm = Inr d"
  shows "gated_tanh input dm =
     bin_op (*) (map_tensor tanh (narrow input d 0 (shape input ! d div 2 + (if shape input ! d mod 2 > 0 then 1 else 0))))
                (map_tensor sigmoid (narrow input d (shape input ! d div 2 + (if shape input ! d mod 2 > 0 then 1 else 0)) (shape input ! d div 2)))"
  using assms by (simp add: gated_tanh_def tensor_split2_def Let_def)

lemma norm_dim_less: "norm_dim r dm = Inr d \<Longrightarrow> d < r"
  by (auto simp: norm_dim_def split: if_splits)

text \<open>
  C3 (as amended).  Along a valid axis of even length \<open>2m\<close>, \<open>gated_tanh\<close> returns
  \<open>tanh(a) * sigmoid(b)\<close> entry by entry, \<open>a\<close> and \<open>b\<close> being the two halves, and the
  axis has length \<open>m\<close> in the result.  It raises when the length is odd and at least 5.
  Lengths 3 and 1 are accepted: \<open>tensor_split\<close> yields sections of lengths 2 and 1
  (respectively 1 and 0), and the product broadcasts the shorter one.
\<close>

theorem gated_tanh_cases:
  assumes nd: "norm_dim (length (shape input)) dm = Inr d"
  shows "(even (shape input ! d) \<longrightarrow>
            (\<exists>r. gated_tanh input dm = Inr r
               \<and> shape r = (shape input)[d := shape input ! d div 2]
               \<and> (\<forall>p. inside (shape r) p \<longrightarrow>
                     elem r p = tanh (elem input p)
                                * sigmoid (elem input (p[d := p ! d + shape input ! d div 2])))))
       \<and> (odd (shape input ! d) \<and> 5 \<le> shape input ! d \<longrightarrow>
            gated_tanh input dm = Inl RuntimeError)
       \<and> (shape input ! d = 3 \<longrightarrow>
            (\<exists>r. gated_tanh input dm = Inr r
               \<and> shape r = (shape input)[d := 2]
               \<and> (\<forall>p. inside (shape r) p \<longrightarrow>
                     elem r p = tanh (elem input p) * sigmoid (elem input (p[d := 2])))))
       \<and> (shape input ! d = 1 \<longrightarrow>
            (\<exists>r. gated_tanh input dm = Inr r \<and> shape r = (shape input)[d := 0]))"
proof -
  let ?s = "shape input"
  let ?n = "?s ! d"
  have d: "d < length ?s" using norm_dim_less [OF nd] .
  have A: "even ?n \<longrightarrow>
            (\<exists>r. gated_tanh input dm = Inr r
               \<and> shape r = ?s[d := ?n div 2]
               \<and> (\<forall>p. inside (shape r) p \<longrightarrow>
                     elem r p = tanh (elem input p)
                                * sigmoid (elem input (p[d := p ! d + ?n div 2]))))"
  proof
    assume ev: "even ?n"
    then have m0: "?n mod 2 = 0" by presburger
    have "p[d := (if ?n div 2 = 1 then 0 else p ! d)] = p" if "inside (?s[d := ?n div 2]) p" for p
    proof (cases "?n div 2 = 1")
      case True
      then have "p ! d = 0" using inside_nth [OF that, of d] d by simp
      then show ?thesis using True by (metis list_update_id)
    qed simp
    then show "\<exists>r. gated_tanh input dm = Inr r
               \<and> shape r = ?s[d := ?n div 2]
               \<and> (\<forall>p. inside (shape r) p \<longrightarrow>
                     elem r p = tanh (elem input p)
                                * sigmoid (elem input (p[d := p ! d + ?n div 2])))"
      using d m0
      by (simp add: gated_tanh_unfold [OF nd] bin_op_def map_tensor_def narrow_def
            broadcast_shapes_update bproj_update)
  qed
  have B: "odd ?n \<and> 5 \<le> ?n \<longrightarrow> gated_tanh input dm = Inl RuntimeError"
  proof
    assume o: "odd ?n \<and> 5 \<le> ?n"
    then have m1: "?n mod 2 = Suc 0" by presburger
    from o have "?n div 2 \<noteq> 1" "Suc (?n div 2) \<noteq> 1" "Suc (?n div 2) \<noteq> ?n div 2" by presburger+
    then show "gated_tanh input dm = Inl RuntimeError"
      using d m1
      by (simp add: gated_tanh_unfold [OF nd] bin_op_def map_tensor_def narrow_def
            broadcast_shapes_update)
  qed
  have C: "?n = 3 \<longrightarrow>
            (\<exists>r. gated_tanh input dm = Inr r
               \<and> shape r = ?s[d := 2]
               \<and> (\<forall>p. inside (shape r) p \<longrightarrow>
                     elem r p = tanh (elem input p) * sigmoid (elem input (p[d := 2]))))"
  proof
    assume n3: "?n = 3"
    have e: "(3::nat) div 2 = 1" "(3::nat) mod 2 = 1" by simp_all
    show "\<exists>r. gated_tanh input dm = Inr r
               \<and> shape r = ?s[d := 2]
               \<and> (\<forall>p. inside (shape r) p \<longrightarrow>
                     elem r p = tanh (elem input p) * sigmoid (elem input (p[d := 2])))"
      using d
      by (simp add: gated_tanh_unfold [OF nd] n3 e bin_op_def map_tensor_def narrow_def
            broadcast_shapes_update bproj_update inside_length)
         (simp only: numeral_2_eq_2 simp_thms)
  qed
  have D: "?n = 1 \<longrightarrow> (\<exists>r. gated_tanh input dm = Inr r \<and> shape r = ?s[d := 0])"
  proof
    assume n1: "?n = 1"
    show "\<exists>r. gated_tanh input dm = Inr r \<and> shape r = ?s[d := 0]"
      using d
      by (simp add: gated_tanh_unfold [OF nd] n1 bin_op_def map_tensor_def narrow_def
            broadcast_shapes_update)
  qed
  from A B C D show ?thesis by blast
qed


text \<open>
  An axis of length 3 is not rejected: the call returns a tensor of length 2.
\<close>

theorem gated_tanh_odd_counterexample:
  "map_sum id shape (gated_tanh (from_list [3] [1, 2, 3]) (- 1)) = Inr [2]"
  by (simp add: gated_tanh_def tensor_split2_def norm_dim_def narrow_def bin_op_def
        broadcast_shapes_def map_tensor_def from_list_def)

theorem gated_tanh_cases_witness:
  "norm_dim (length (shape (from_list [2, 4] [1, 2, 3, 4, 5, 6, 7, 8 :: real]))) (- 1) = Inr 1
   \<and> even (shape (from_list [2, 4] [1, 2, 3, 4, 5, 6, 7, 8 :: real]) ! 1)
   \<and> (\<exists>r. gated_tanh (from_list [2, 4] [1, 2, 3, 4, 5, 6, 7, 8]) (- 1) = Inr r
          \<and> shape r = [2, 2] \<and> elem r [1, 0] = tanh 5 * sigmoid 7)
   \<and> odd (shape (from_list [5] [1, 2, 3, 4, 5 :: real]) ! 0)
   \<and> gated_tanh (from_list [5] [1, 2, 3, 4, 5]) 0 = Inl RuntimeError
   \<and> (\<exists>r. gated_tanh (from_list [3] [1, 2, 3]) 0 = Inr r
          \<and> shape r = [2] \<and> elem r [1] = tanh 2 * sigmoid 3)
   \<and> (\<exists>r. gated_tanh (from_list [1] [1]) 0 = Inr r \<and> shape r = [0])"
proof -
  have i24: "inside [2, 2] [1, 0]" and i3: "inside [2] [1]" by (simp_all add: inside_def)
  have n1: "norm_dim (length (shape (from_list [2, 4] [1, 2, 3, 4, 5, 6, 7, 8 :: real]))) (- 1) = Inr 1"
    and n0: "\<And>s xs. norm_dim (length (shape (from_list [s] (xs :: real list)))) 0 = Inr 0"
    by (simp_all add: norm_dim_def from_list_def)
  show ?thesis
    using gated_tanh_cases [OF n1] gated_tanh_cases [OF n0 [of 5 "[1, 2, 3, 4, 5]"]]
      gated_tanh_cases [OF n0 [of 3 "[1, 2, 3]"]] gated_tanh_cases [OF n0 [of 1 "[1]"]]
      i24 i3 n1
    by (auto simp: from_list_def flat_index_def)
qed

section \<open>Properties of sparse\_softmax\<close>

lemma inside_Nil [simp]: "inside [] p = (p = [])"
  by (simp add: inside_def)

lemma inside_Cons: "inside (n # s) p = (\<exists>i q. p = i # q \<and> i < n \<and> inside s q)"
  by (auto simp: inside_def list_all2_Cons2)

lemma all_indices_inside: "p \<in> set (all_indices s) = inside s p"
  by (induction s arbitrary: p) (fastforce simp: inside_Cons)+

lemma broadcast_shapes_same: "broadcast_shapes s s = Some s"
proof -
  have "map2 (\<lambda>x y. if x = 1 then y else x) s s = s"
    by (auto simp: list_eq_iff_nth_eq)
  then show ?thesis using broadcast_shapes_same_length [of s s] by simp
qed

lemma bproj_inside: "inside s p \<Longrightarrow> bproj s p = p"
proof -
  assume i: "inside s p"
  have "p ! k = 0" if "k < length s" "s ! k = 1" for k
    using inside_nth [OF i that(1)] that(2) by simp
  then show ?thesis
    using inside_length [OF i] by (auto simp: bproj_def list_eq_iff_nth_eq)
qed

lemma fold_max_Max: "fold max xs (x::'a::linorder) = Max (set (x # xs))"
  using Max.set_eq_fold [of x xs] by simp

lemma max_of_Max: "xs \<noteq> [] \<Longrightarrow> max_of xs = Max (set xs)"
  by (cases xs) (simp_all add: max_of_def fold_max_Max)

lemma maybe_num_nodes_inferred: "i \<in> set index \<Longrightarrow> i < maybe_num_nodes index None"
proof (cases index)
  case (Cons a rest)
  assume "i \<in> set index"
  then have "i \<le> Max (set (a # rest))" using Cons by (intro Max_ge) auto
  then show ?thesis using Cons by (simp add: maybe_num_nodes_def fold_max_Max)
qed simp

lemma group_vals_select:
  assumes "d < length p" "length index = shape src ! d" "p ! d < length index"
    "0 \<le> index ! (p ! d)"
  shows "group_vals src \<lparr>shape = s', elem = (\<lambda>q. index ! (if length index = 1 then 0 else q ! d))\<rparr>
           d (p[d := nat (index ! (p ! d))])
         = map (\<lambda>j. elem src (p[d := j])) (group_of index (p ! d))"
proof -
  let ?E = "\<lparr>shape = s', elem = (\<lambda>q. index ! (if length index = 1 then 0 else q ! d))\<rparr>"
  let ?q = "p[d := nat (index ! (p ! d))]"
  have P: "(elem ?E (?q[d := j]) = int (?q ! d)) = (index ! j = index ! (p ! d))"
    if "j < length index" for j
  proof (cases "length index = 1")
    case True
    then have "j = 0" using that by simp
    then show ?thesis using assms True by simp
  next
    case False
    then show ?thesis using assms by simp
  qed
  have F: "filter (\<lambda>j. elem ?E (?q[d := j]) = int (?q ! d)) [0..<shape src ! d]
         = filter (\<lambda>j. index ! j = index ! (p ! d)) [0..<length index]"
    using assms(2) P by (intro filter_cong) auto
  have M: "(\<lambda>j. elem src (?q[d := j])) = (\<lambda>j. elem src (p[d := j]))"
    by simp
  show ?thesis
    unfolding group_vals_def group_of_def F M ..
qed

lemma self_in_group: "i < length index \<Longrightarrow> i \<in> set (group_of index i)"
  by (simp add: group_of_def)

lemma group_of_same: "index ! j = index ! i \<Longrightarrow> group_of index j = group_of index i"
  by (simp add: group_of_def)

lemma group_of_less: "j \<in> set (group_of index i) \<Longrightarrow> j < length index \<and> index ! j = index ! i"
  by (simp add: group_of_def)

lemma inside_update: "inside s p \<Longrightarrow> d < length s \<Longrightarrow> j < s ! d \<Longrightarrow> inside s (p[d := j])"
  by (auto simp: inside_def list_all2_conv_all_nth nth_list_update)

lemma num_nodes_bounds:
  assumes "list_all (\<lambda>i. 0 \<le> i) index" "group_count_ok index num_nodes"
  shows "0 \<le> maybe_num_nodes index num_nodes"
    and "i \<in> set index \<Longrightarrow> 0 \<le> i \<and> i < maybe_num_nodes index num_nodes"
proof -
  show b: "i \<in> set index \<Longrightarrow> 0 \<le> i \<and> i < maybe_num_nodes index num_nodes" for i
    using assms maybe_num_nodes_inferred [of i index]
    by (cases num_nodes) (auto simp: group_count_ok_def list_all_iff maybe_num_nodes_def)
  show "0 \<le> maybe_num_nodes index num_nodes"
  proof (cases index)
    case Nil
    then show ?thesis using assms(2)
      by (cases num_nodes) (simp_all add: maybe_num_nodes_def group_count_ok_def)
  next
    case (Cons a rest)
    then show ?thesis using b [of a] by simp
  qed
qed

lemma sparse_softmax_formula:
  assumes nd: "norm_dim (length (shape src)) dm = Inr d"
    and len: "length index = shape src ! d"
    and nonneg: "list_all (\<lambda>i. 0 \<le> i) index"
    and cnt: "group_count_ok index num_nodes"
  shows "\<exists>r. sparse_softmax epsilon src index num_nodes dm = Inr r \<and> shape r = shape src
           \<and> (\<forall>p. inside (shape src) p \<longrightarrow> elem r p = softmax_spec epsilon src index d p)"
proof -
  let ?s = "shape src"
  let ?N = "maybe_num_nodes index num_nodes"
  define E :: "int tensor"
    where "E = \<lparr>shape = ?s, elem = (\<lambda>q. index ! (if length index = 1 then 0 else q ! d))\<rparr>"
  have d: "d < length ?s" using norm_dim_less [OF nd] .
  have N0: "0 \<le> ?N" and rng: "\<And>i. i \<in> set index \<Longrightarrow> 0 \<le> i \<and> i < ?N"
    using num_nodes_bounds [OF nonneg cnt] by blast+
  have bi: "broadcast_index index src dm = Inr E"
    using nd len by (simp add: broadcast_index_def E_def)
  have Ein: "0 \<le> elem E p \<and> elem E p < ?N" if "inside ?s p" for p
  proof -
    have "p ! d < length index" using inside_nth [OF that d] len by simp
    then have "index ! (if length index = 1 then 0 else p ! d) \<in> set index"
      by (auto intro!: nth_mem)
    then show ?thesis using rng by (simp add: E_def)
  qed
  have sE: "shape E = ?s" by (simp add: E_def)
  have chk: "\<not> (\<exists>p \<in> set (all_indices (shape E)). elem E p < 0 \<or> ?N \<le> elem E p)"
    unfolding sE using Ein by (auto simp: all_indices_inside) (metis not_le)+
  have sc: "scatter t E dm ?N red =
      (if red = ''max'' then
         Inr \<lparr>shape = ?s[d := nat ?N],
              elem = (\<lambda>p. let vs = group_vals t E d p in if vs = [] then 0 else max_of vs)\<rparr>
       else if red = ''sum'' then
         Inr \<lparr>shape = ?s[d := nat ?N], elem = (\<lambda>p. sum_list (group_vals t E d p))\<rparr>
       else Inl ValueError)" if "shape t = ?s" for t red
    unfolding scatter_def using nd N0 chk that sE by simp
  have isel: "index_select t dm index =
      Inr \<lparr>shape = ?s, elem = (\<lambda>p. elem t (p[d := nat (index ! (p ! d))]))\<rparr>"
    if "shape t = ?s[d := nat ?N]" for t :: "real tensor"
  proof -
    have "\<forall>i \<in> set index. 0 \<le> i \<and> i < int (shape t ! d)"
      using rng that d N0 by simp
    moreover have "(shape t)[d := length index] = ?s" using that len by simp
    ultimately show ?thesis using nd that by (simp add: index_select_def)
  qed
  have G: "group_vals t E d (p[d := nat (index ! (p ! d))])
         = map (\<lambda>j. elem t (p[d := j])) (group_of index (p ! d))"
    if "inside ?s p" "shape t = ?s" for p and t :: "real tensor"
  proof -
    have pd: "p ! d < length index" using inside_nth [OF that(1) d] len by simp
    then have "0 \<le> index ! (p ! d)" using rng by simp
    then show ?thesis
      using group_vals_select [of d p index t ?s] inside_length [OF that(1)] d len pd that(2)
      unfolding E_def by simp
  qed
  let ?SM = "\<lparr>shape = ?s, elem = (\<lambda>p. let vs = group_vals src E d (p[d := nat (index ! (p ! d))])
                                     in if vs = [] then 0 else max_of vs)\<rparr>"
  let ?D = "\<lparr>shape = ?s, elem = (\<lambda>p. elem src (bproj ?s p) - elem ?SM (bproj ?s p))\<rparr>"
  let ?O = "map_tensor exp ?D"
  let ?OS = "\<lparr>shape = ?s, elem = (\<lambda>p. sum_list (group_vals ?O E d (p[d := nat (index ! (p ! d))])))\<rparr>"
  let ?R = "\<lparr>shape = ?s,
            elem = (\<lambda>p. elem ?O (bproj ?s p) / elem (map_tensor (\<lambda>x. x + epsilon) ?OS) (bproj ?s p))\<rparr>"
  have run: "sparse_softmax epsilon src index num_nodes dm = Inr ?R"
    unfolding sparse_softmax_def Let_def bi
    by (simp add: sc isel bin_op_def broadcast_shapes_same map_tensor_def Let_def)
  have SMv: "elem ?SM p = group_max src index d p" if "inside ?s p" for p
  proof -
    have pd: "p ! d < length index" using inside_nth [OF that d] len by simp
    have ne: "group_of index (p ! d) \<noteq> []" using self_in_group [OF pd] by auto
    show ?thesis
      using G [OF that refl] ne by (simp add: max_of_Max group_max_def)
  qed
  have Ov: "elem ?O p = exp (elem src p - group_max src index d p)" if "inside ?s p" for p
    using SMv [OF that] bproj_inside [OF that] by (simp add: map_tensor_def)
  have Rv: "elem ?R p = softmax_spec epsilon src index d p" if ins: "inside ?s p" for p
  proof -
    have sO: "shape ?O = ?s" by (simp add: map_tensor_def)
    have "elem ?O (p[d := j]) = exp (elem src (p[d := j]) - group_max src index d p)"
      if "j \<in> set (group_of index (p ! d))" for j
    proof -
      from group_of_less [OF that] have j: "j < length index" "index ! j = index ! (p ! d)" by auto
      have ij: "inside ?s (p[d := j])" using inside_update [OF ins d] j len by simp
      have "group_max src index d (p[d := j]) = group_max src index d p"
        using inside_length [OF ins] d j group_of_same [OF j(2)] by (simp add: group_max_def)
      then show ?thesis using Ov [OF ij] by simp
    qed
    then have mapeq: "map (\<lambda>j. elem ?O (p[d := j])) (group_of index (p ! d))
       = map (\<lambda>j. exp (elem src (p[d := j]) - group_max src index d p)) (group_of index (p ! d))"
      by (intro map_cong) auto
    have "elem ?OS p = sum_list (group_vals ?O E d (p[d := nat (index ! (p ! d))]))"
      by simp
    also have "\<dots> = sum_list (map (\<lambda>j. exp (elem src (p[d := j]) - group_max src index d p))
                                   (group_of index (p ! d)))"
      unfolding G [OF ins sO] mapeq ..
    finally have OSv: "elem ?OS p = sum_list (map (\<lambda>j. exp (elem src (p[d := j]) - group_max src index d p))
                                   (group_of index (p ! d)))" .
    show ?thesis
      unfolding softmax_spec_def
      using Ov [OF ins] OSv bproj_inside [OF ins] by (simp add: map_tensor_def)
  qed
  show ?thesis using run Rv by (intro exI [of _ ?R]) simp
qed

text \<open>
  C6.  Let \<open>dim\<close> be a valid axis \<open>d\<close> of \<open>src\<close>, the index have one non-negative entry
  per position of that axis, and the group count be inferred, or given and larger than
  every entry.  Then \<open>sparse_softmax\<close> returns a tensor of the shape of \<open>src\<close> whose
  entry at \<open>p\<close> is \<open>exp(src_p - max_g) / (sum over j in g of exp(src_j - max_g) + epsilon)\<close>,
  \<open>g\<close> being the group of \<open>p\<close> along \<open>d\<close> and \<open>max_g\<close> the maximum of \<open>src\<close> over it.
\<close>

theorem sparse_softmax_refines_spec:
  assumes "norm_dim (length (shape src)) dm = Inr d"
    and "length index = shape src ! d"
    and "list_all (\<lambda>i. 0 \<le> i) index"
    and "group_count_ok index num_nodes"
  shows "\<exists>r. sparse_softmax epsilon src index num_nodes dm = Inr r \<and> shape r = shape src
           \<and> (\<forall>p. inside (shape src) p \<longrightarrow>
                 elem r p =
                   exp (elem src p - group_max src index d p)
                   / (sum_list (map (\<lambda>j. exp (elem src (p[d := j]) - group_max src index d p))
                                 (group_of index (p ! d))) + epsilon))"
  using sparse_softmax_formula [OF assms, of epsilon] by (simp add: softmax_spec_def)

lemma upt3: "[0..<3] = [0, 1, 2]"
  by (simp add: upt_rec)

theorem sparse_softmax_refines_spec_witness:
  "norm_dim (length (shape (from_list [3, 2] [1, 2, 3, 4, 5, 6 :: real]))) (- 2) = Inr 0
   \<and> length [0, 1, 0 :: int] = shape (from_list [3, 2] [1, 2, 3, 4, 5, 6 :: real]) ! 0
   \<and> list_all (\<lambda>i. 0 \<le> i) [0, 1, 0 :: int]
   \<and> group_count_ok [0, 1, 0] None
   \<and> inside (shape (from_list [3, 2] [1, 2, 3, 4, 5, 6 :: real])) [0, 1]
   \<and> (\<exists>r. sparse_softmax (5 / 10 ^ 8) (from_list [3, 2] [1, 2, 3, 4, 5, 6]) [0, 1, 0] None (- 2)
              = Inr r
          \<and> shape r = [3, 2]
          \<and> elem r [0, 1] = exp (2 - 6) / (exp (2 - 6) + exp (6 - 6) + 5 / 10 ^ 8))"
proof -
  let ?src = "from_list [3, 2] [1, 2, 3, 4, 5, 6 :: real]"
  have h1: "norm_dim (length (shape ?src)) (- 2) = Inr 0"
    by (simp add: norm_dim_def from_list_def)
  have h2: "length [0, 1, 0 :: int] = shape ?src ! 0" by (simp add: from_list_def)
  have h3: "list_all (\<lambda>i. 0 \<le> i) [0, 1, 0 :: int]" by simp
  have h4: "group_count_ok [0, 1, 0] None" by (simp add: group_count_ok_def)
  have h5: "inside (shape ?src) [0, 1]" by (simp add: inside_def from_list_def)
  have g: "group_of [0, 1, 0] 0 = [0, 2]" by (simp add: group_of_def upt3)
  have m: "group_max ?src [0, 1, 0] 0 [0, 1] = 6"
    by (simp add: group_max_def g from_list_def flat_index_def)
  from sparse_softmax_refines_spec [OF h1 h2 h3 h4, of "5 / 10 ^ 8"]
  obtain r where r: "sparse_softmax (5 / 10 ^ 8) ?src [0, 1, 0] None (- 2) = Inr r"
      "shape r = shape ?src"
    and v: "\<forall>p. inside (shape ?src) p \<longrightarrow>
                 elem r p =
                   exp (elem ?src p - group_max ?src [0, 1, 0] 0 p)
                   / (sum_list (map (\<lambda>j. exp (elem ?src (p[0 := j]) - group_max ?src [0, 1, 0] 0 p))
                                 (group_of [0, 1, 0] (p ! 0))) + 5 / 10 ^ 8)"
    by blast
  have "elem r [0, 1] =
          exp (elem ?src [0, 1] - 6)
          / (sum_list (map (\<lambda>j. exp (elem ?src ([0, 1][0 := j]) - 6)) [0, 2]) + 5 / 10 ^ 8)"
    using v [rule_format, OF h5] by (simp only: m g nth_Cons_0)
  then have "elem r [0, 1] = exp (2 - 6) / (exp (2 - 6) + exp (6 - 6) + 5 / 10 ^ 8)"
    by (simp add: from_list_def flat_index_def)
  moreover have "shape r = [3, 2]" using r(2) by (simp add: from_list_def)
  ultimately show ?thesis using r(1) h1 h2 h3 h4 h5 by blast
qed

lemma member_le_sum_list_real:
  fixes xs :: "real list"
  shows "(\<forall>x \<in> set xs. 0 \<le> x) \<Longrightarrow> y \<in> set xs \<Longrightarrow> y \<le> sum_list xs"
proof (induction xs)
  case (Cons a xs)
  have "0 \<le> sum_list xs" using Cons.prems(1) by (intro sum_list_nonneg) simp
  then show ?case using Cons by (cases "y = a") (auto intro: add_increasing)
qed simp

lemma group_exp_sum_ge_1:
  assumes "i < length index" "d < length p"
  shows "1 \<le> sum_list (map (\<lambda>j. exp (elem src (p[d := j]) - group_max src index d (p[d := i])))
                    (group_of index i))" (is "1 \<le> sum_list ?xs")
proof -
  let ?G = "set (group_of index i)"
  let ?f = "\<lambda>j. elem src (p[d := j])"
  have ne: "?G \<noteq> {}" using self_in_group [OF assms(1)] by auto
  have "Max (?f ` ?G) \<in> ?f ` ?G" using ne by (intro Max_in) auto
  then obtain j0 where j0: "j0 \<in> ?G" "?f j0 = Max (?f ` ?G)" by auto
  have gm: "group_max src index d (p[d := i]) = Max (?f ` ?G)"
    using assms(2) by (simp add: group_max_def)
  have "exp (?f j0 - group_max src index d (p[d := i])) \<in> set ?xs"
    using j0(1) by (simp add: image_iff) (rule bexI [of _ j0], simp_all)
  then have "exp (?f j0 - group_max src index d (p[d := i])) \<le> sum_list ?xs"
    by (intro member_le_sum_list_real) auto
  then show ?thesis using gm j0(2) by simp
qed

lemma softmax_spec_in_group:
  assumes "d < length p" "j \<in> set (group_of index (p ! d))"
  shows "softmax_spec epsilon src index d (p[d := j]) =
         exp (elem src (p[d := j]) - group_max src index d p)
         / (sum_list (map (\<lambda>k. exp (elem src (p[d := k]) - group_max src index d p))
                       (group_of index (p ! d))) + epsilon)"
proof -
  from group_of_less [OF assms(2)] have j: "index ! j = index ! (p ! d)" by simp
  have g: "group_of index j = group_of index (p ! d)" using group_of_same [OF j] .
  have m: "group_max src index d (p[d := j]) = group_max src index d p"
    using assms(1) g by (simp add: group_max_def)
  show ?thesis using assms(1) g m by (simp add: softmax_spec_def)
qed

lemma sum_list_divide_const:
  fixes f :: "'a \<Rightarrow> real"
  shows "sum_list (map (\<lambda>x. f x / c) xs) = sum_list (map f xs) / c"
  by (induction xs) (simp_all add: add_divide_distrib)

text \<open>
  In exact arithmetic the values \<open>softmax_spec\<close> of a group sum to \<open>S / (S + epsilon)\<close>,
  where \<open>S \<ge> 1\<close> is the group's sum of exponentials: the sum is below 1 by less than
  \<open>epsilon\<close>.  The rounding of floating-point arithmetic is outside this statement.
\<close>

lemma softmax_spec_group_sum:
  assumes "d < length p" "p ! d < length index" "0 < epsilon"
  shows "\<bar>sum_list (map (\<lambda>j. softmax_spec epsilon src index d (p[d := j])) (group_of index (p ! d))) - 1\<bar>
         < epsilon"
proof -
  let ?G = "group_of index (p ! d)"
  let ?S = "sum_list (map (\<lambda>k. exp (elem src (p[d := k]) - group_max src index d p)) ?G)"
  have mp: "map (\<lambda>j. softmax_spec epsilon src index d (p[d := j])) ?G
      = map (\<lambda>j. exp (elem src (p[d := j]) - group_max src index d p) / (?S + epsilon)) ?G"
    by (intro map_cong refl softmax_spec_in_group [OF assms(1)])
  have sum: "sum_list (map (\<lambda>j. softmax_spec epsilon src index d (p[d := j])) ?G)
       = ?S / (?S + epsilon)"
    unfolding mp by (rule sum_list_divide_const)
  have "1 \<le> ?S"
    using group_exp_sum_ge_1 [OF assms(2) assms(1), of src] by simp
  then have pos: "1 < ?S + epsilon" using assms(3) by simp
  have "?S / (?S + epsilon) - 1 = - (epsilon / (?S + epsilon))"
    using pos by (simp add: field_simps)
  moreover have "epsilon / (?S + epsilon) < epsilon"
    using divide_strict_left_mono [of 1 "?S + epsilon" epsilon] pos assms(3) by simp
  moreover have "0 < epsilon / (?S + epsilon)" using pos assms(3) by simp
  ultimately show ?thesis unfolding sum by linarith
qed

lemma softmax_spec_shift:
  assumes "d < length p" "p ! d < length index"
  shows "softmax_spec epsilon (shift_groups src index d c) index d p
       = softmax_spec epsilon src index d p"
proof -
  let ?G = "group_of index (p ! d)"
  let ?g = "index ! (p ! d)"
  have el: "elem (shift_groups src index d c) (p[d := j]) = elem src (p[d := j]) + c ?g"
    if "j \<in> set ?G" for j
    using group_of_less [OF that] assms(1) by (simp add: shift_groups_def)
  have ne: "set ?G \<noteq> {}" using self_in_group [OF assms(2)] by auto
  have "(\<lambda>j. elem (shift_groups src index d c) (p[d := j])) ` set ?G
      = (\<lambda>j. elem src (p[d := j]) + c ?g) ` set ?G"
    using el by (intro image_cong) auto
  then have gm: "group_max (shift_groups src index d c) index d p = group_max src index d p + c ?g"
    using ne by (simp add: group_max_def Max_add_commute)
  have mp: "map (\<lambda>j. exp (elem (shift_groups src index d c) (p[d := j])
                       - group_max (shift_groups src index d c) index d p)) ?G
         = map (\<lambda>j. exp (elem src (p[d := j]) - group_max src index d p)) ?G"
    using el gm by (intro map_cong) auto
  have "elem (shift_groups src index d c) p = elem src p + c ?g"
    by (simp add: shift_groups_def)
  then show ?thesis
    unfolding softmax_spec_def mp using gm by simp
qed

lemma shape_shift_groups [simp]: "shape (shift_groups src index d c) = shape src"
  by (simp add: shift_groups_def)

lemma softmax_output_group_sum:
  assumes nd: "norm_dim (length (shape src)) dm = Inr d"
    and len: "length index = shape src ! d"
    and nonneg: "list_all (\<lambda>i. 0 \<le> i) index"
    and cnt: "group_count_ok index num_nodes"
    and eps: "0 < epsilon"
    and run: "sparse_softmax epsilon src index num_nodes dm = Inr r"
    and ins: "inside (shape src) p"
  shows "\<bar>sum_list (map (\<lambda>j. elem r (p[d := j])) (group_of index (p ! d))) - 1\<bar> < epsilon"
proof -
  have d: "d < length (shape src)" using norm_dim_less [OF nd] .
  have dp: "d < length p" using inside_length [OF ins] d by simp
  have pd: "p ! d < length index" using inside_nth [OF ins d] len by simp
  from sparse_softmax_formula [OF nd len nonneg cnt, of epsilon] run
  have v: "\<And>q. inside (shape src) q \<Longrightarrow> elem r q = softmax_spec epsilon src index d q"
    by auto
  have "elem r (p[d := j]) = softmax_spec epsilon src index d (p[d := j])"
    if "j \<in> set (group_of index (p ! d))" for j
    using group_of_less [OF that] len by (intro v inside_update [OF ins d]) simp
  then have mp: "map (\<lambda>j. elem r (p[d := j])) (group_of index (p ! d))
        = map (\<lambda>j. softmax_spec epsilon src index d (p[d := j])) (group_of index (p ! d))"
    by (intro map_cong) auto
  show ?thesis unfolding mp by (rule softmax_spec_group_sum [OF dp pd eps])
qed

text \<open>
  C8.  Adding a constant \<open>c g\<close> to every input of group \<open>g\<close>, for each group, changes no
  entry of the result of \<open>sparse_softmax\<close>.
\<close>

theorem sparse_softmax_shift_invariant:
  assumes nd: "norm_dim (length (shape src)) dm = Inr d"
    and len: "length index = shape src ! d"
    and nonneg: "list_all (\<lambda>i. 0 \<le> i) index"
    and cnt: "group_count_ok index num_nodes"
  shows "\<exists>r r'. sparse_softmax epsilon src index num_nodes dm = Inr r
            \<and> sparse_softmax epsilon (shift_groups src index d c) index num_nodes dm = Inr r'
            \<and> shape r' = shape r
            \<and> (\<forall>p. inside (shape src) p \<longrightarrow> elem r' p = elem r p)"
proof -
  let ?src' = "shift_groups src index d c"
  have d: "d < length (shape src)" using norm_dim_less [OF nd] .
  from sparse_softmax_formula [OF nd len nonneg cnt, of epsilon]
  obtain r where r: "sparse_softmax epsilon src index num_nodes dm = Inr r" "shape r = shape src"
    and v: "\<And>p. inside (shape src) p \<Longrightarrow> elem r p = softmax_spec epsilon src index d p"
    by auto
  have nd': "norm_dim (length (shape ?src')) dm = Inr d" and len': "length index = shape ?src' ! d"
    using nd len by simp_all
  from sparse_softmax_formula [OF nd' len' nonneg cnt, of epsilon]
  obtain r' where r': "sparse_softmax epsilon ?src' index num_nodes dm = Inr r'" "shape r' = shape src"
    and v': "\<And>p. inside (shape src) p \<Longrightarrow> elem r' p = softmax_spec epsilon ?src' index d p"
    by auto
  have "elem r' p = elem r p" if ins: "inside (shape src) p" for p
  proof -
    have dp: "d < length p" using inside_length [OF ins] d by simp
    have pd: "p ! d < length index" using inside_nth [OF ins d] len by simp
    show ?thesis using v [OF ins] v' [OF ins] softmax_spec_shift [OF dp pd] by simp
  qed
  then show ?thesis using r r' by auto
qed

theorem sparse_softmax_shift_invariant_witness:
  "norm_dim (length (shape (from_list [3, 2] [1, 2, 3, 4, 5, 6 :: real]))) (- 2) = Inr 0
   \<and> length [0, 1, 0 :: int] = shape (from_list [3, 2] [1, 2, 3, 4, 5, 6 :: real]) ! 0
   \<and> list_all (\<lambda>i. 0 \<le> i) [0, 1, 0 :: int]
   \<and> group_count_ok [0, 1, 0] (Some 2)
   \<and> (\<exists>r r'. sparse_softmax (5 / 10 ^ 8) (from_list [3, 2] [1, 2, 3, 4, 5, 6]) [0, 1, 0] (Some 2) (- 2)
               = Inr r
          \<and> sparse_softmax (5 / 10 ^ 8)
               (shift_groups (from_list [3, 2] [1, 2, 3, 4, 5, 6]) [0, 1, 0] 0 demo_shift)
               [0, 1, 0] (Some 2) (- 2) = Inr r'
          \<and> shape r' = shape r
          \<and> elem (shift_groups (from_list [3, 2] [1, 2, 3, 4, 5, 6]) [0, 1, 0] 0 demo_shift) [2, 1] = 16
          \<and> elem r' [2, 1] = elem r [2, 1])"
proof -
  let ?src = "from_list [3, 2] [1, 2, 3, 4, 5, 6 :: real]"
  have h1: "norm_dim (length (shape ?src)) (- 2) = Inr 0"
    by (simp add: norm_dim_def from_list_def)
  have h2: "length [0, 1, 0 :: int] = shape ?src ! 0" by (simp add: from_list_def)
  have h3: "list_all (\<lambda>i. 0 \<le> i) [0, 1, 0 :: int]" by simp
  have h4: "group_count_ok [0, 1, 0] (Some 2)" by (simp add: group_count_ok_def)
  have h5: "inside (shape ?src) [2, 1]" by (simp add: inside_def from_list_def)
  have e: "elem (shift_groups ?src [0, 1, 0] 0 demo_shift) [2, 1] = 16"
    by (simp add: shift_groups_def from_list_def flat_index_def demo_shift_def)
  from sparse_softmax_shift_invariant [OF h1 h2 h3 h4, of "5 / 10 ^ 8" demo_shift] h5
  show ?thesis using h1 h2 h3 h4 e by blast
qed

section \<open>Properties of sparse\_multi\_head\_attention\<close>

lemma attention_frame:
  "a \<noteq> v \<Longrightarrow> snd (sparse_multi_head_attention epsilon keep h q k v index dim_size dropout_p) a = h a"
  by (simp add: sparse_multi_head_attention_def Let_def split: list.splits sum.splits)

lemma broadcast_shapes_last_mismatch:
  assumes "a \<noteq> []" "b \<noteq> []" "last a \<noteq> last b" "last a \<noteq> 1" "last b \<noteq> 1"
  shows "broadcast_shapes a b = None"
proof -
  have a: "rev a = last a # rev (butlast a)"
    using assms(1) by (cases a rule: rev_cases) auto
  have b: "rev b = last b # rev (butlast b)"
    using assms(2) by (cases b rule: rev_cases) auto
  show ?thesis unfolding broadcast_shapes_def a b using assms(3-5) by simp
qed

lemma attention_weights_last_mismatch:
  assumes "shape q \<noteq> []" "shape k \<noteq> []" "last (shape q) \<noteq> last (shape k)"
    "last (shape q) \<noteq> 1" "last (shape k) \<noteq> 1"
  shows "attention_weights epsilon keep q k E index N dropout_p = Inl RuntimeError"
  using broadcast_shapes_last_mismatch [OF assms]
  by (simp add: attention_weights_def bin_op_def)

lemma scatter_shape:
  "scatter src idx dm N red = Inr t \<Longrightarrow>
   \<exists>d. norm_dim (length (shape src)) dm = Inr d \<and> shape t = (shape src)[d := nat N]"
  by (auto simp: scatter_def rbind_eq_Inr split: if_splits)

lemma index_select_shape:
  "index_select t dm idx = Inr t' \<Longrightarrow>
   \<exists>d. norm_dim (length (shape t)) dm = Inr d \<and> shape t' = (shape t)[d := length idx]"
  by (auto simp: index_select_def rbind_eq_Inr split: if_splits)

lemma bin_op_shape:
  "bin_op f a b = Inr t \<Longrightarrow> broadcast_shapes (shape a) (shape b) = Some (shape t)"
  by (auto simp: bin_op_def split: option.splits)

lemma broadcast_index_shape:
  "broadcast_index index other dm = Inr e \<Longrightarrow>
   \<exists>d. norm_dim (length (shape other)) dm = Inr d \<and> shape e = shape other
        \<and> (length index = shape other ! d \<or> length index = 1)"
  by (auto simp: broadcast_index_def rbind_eq_Inr split: if_splits)

lemma broadcast_with_selected:
  assumes "d < length s" "L = s ! d \<or> L = 1"
  shows "broadcast_shapes s (s[d := L]) = Some s"
proof -
  have "broadcast_shapes (s[d := s ! d]) (s[d := L]) =
        Some (s[d := (if s ! d = 1 then L else s ! d)])"
    using assms by (subst broadcast_shapes_update) auto
  moreover have "s[d := (if s ! d = 1 then L else s ! d)] = s"
    using assms by (auto simp: list_eq_iff_nth_eq nth_list_update)
  ultimately show ?thesis by simp
qed

lemma sparse_softmax_shape:
  assumes "sparse_softmax epsilon src index num_nodes dm = Inr r"
  shows "shape r = shape src"
proof -
  let ?s = "shape src"
  let ?N = "maybe_num_nodes index num_nodes"
  from assms obtain E SM SM' D OS OS' where
    bi: "broadcast_index index src dm = Inr E"
    and s1: "scatter src E dm ?N ''max'' = Inr SM"
    and i1: "index_select SM dm index = Inr SM'"
    and b1: "bin_op (-) src SM' = Inr D"
    and s2: "scatter (map_tensor exp D) E dm ?N ''sum'' = Inr OS"
    and i2: "index_select OS dm index = Inr OS'"
    and b2: "bin_op (/) (map_tensor exp D) (map_tensor (\<lambda>x. x + epsilon) OS') = Inr r"
    unfolding sparse_softmax_def Let_def by (auto simp: rbind_eq_Inr)
  from broadcast_index_shape [OF bi] obtain d where
    nd: "norm_dim (length ?s) dm = Inr d" and L: "length index = ?s ! d \<or> length index = 1"
    by auto
  have d: "d < length ?s" using norm_dim_less [OF nd] .
  have "shape SM = ?s[d := nat ?N]" using scatter_shape [OF s1] nd by auto
  then have "shape SM' = ?s[d := length index]" using index_select_shape [OF i1] nd by auto
  then have sD: "shape D = ?s"
    using bin_op_shape [OF b1] broadcast_with_selected [OF d L] by simp
  then have "shape OS = ?s[d := nat ?N]" using scatter_shape [OF s2] nd by (auto simp: map_tensor_def)
  then have "shape OS' = ?s[d := length index]" using index_select_shape [OF i2] nd by auto
  then show ?thesis
    using bin_op_shape [OF b2] sD broadcast_with_selected [OF d L] by (simp add: map_tensor_def)
qed

lemma torch_dropout_shape: "torch_dropout x p tr keep = Inr y \<Longrightarrow> shape y = shape x"
  by (auto simp: torch_dropout_def split: if_splits)

lemma norm_dim_minus1:
  "norm_dim r (- 1) = (if r = 0 then Inl IndexError else Inr (r - 1))"
  by (cases r) (auto simp: norm_dim_def)

lemma sum_dim_last:
  "sum_dim t (- 1) =
     (if shape t = [] then Inl IndexError
      else Inr \<lparr>shape = butlast (shape t),
                elem = (\<lambda>p. sum_list (lane t (length (shape t) - 1) p))\<rparr>)"
  by (simp add: sum_dim_def norm_dim_minus1 drop_axis_def butlast_conv_take)

lemma sum_dim_last_shape:
  "sum_dim t (- 1) = Inr s \<Longrightarrow> shape t \<noteq> [] \<and> shape s = butlast (shape t)"
  by (auto simp: sum_dim_last split: if_splits)

lemma attention_weights_shape:
  assumes "attention_weights epsilon keep q k E index N dropout_p = Inr alpha"
    and "shape q = [S, H, E']" "shape k = [S, H, E']"
  shows "shape alpha = [S, H]"
proof -
  from assms(1) obtain qk s a where
    qk: "bin_op (*) q k = Inr qk" and s: "sum_dim qk (- 1) = Inr s"
    and a: "sparse_softmax epsilon (map_tensor (\<lambda>x. x / sqrt (real E)) s) index (Some N) 0 = Inr a"
    and dr: "(if dropout_p > 0 then torch_dropout a dropout_p True keep else Inr a) = Inr alpha"
    unfolding attention_weights_def by (auto simp: rbind_eq_Inr)
  have "shape qk = [S, H, E']"
    using bin_op_shape [OF qk] assms(2,3) by (simp add: broadcast_shapes_same)
  then have "shape s = [S, H]" using sum_dim_last_shape [OF s] by simp
  then have "shape a = [S, H]" using sparse_softmax_shape [OF a] by (simp add: map_tensor_def)
  then show ?thesis using dr torch_dropout_shape by (auto split: if_splits)
qed

lemma unravel_2d: "b < H \<Longrightarrow> unravel [S, H] (a * H + b) = [a, b]"
  by simp

lemma view_rows_2d:
  assumes "shape alpha = [S, H]" "0 < H"
  shows "view_rows alpha H =
           Inr \<lparr>shape = [S, H, 1], elem = (\<lambda>p. elem alpha (unravel [S, H] (p ! 0 * H + p ! 1)))\<rparr>"
  using assms by (simp add: view_rows_def)

lemma attention_success_parts:
  assumes "fst (sparse_multi_head_attention epsilon keep h q k v index dim_size dropout_p)
             = Inr (out', alpha)"
    and "shape (h q) = [S, H, E]"
  shows "attention_weights epsilon keep (h q) (h k) E index (maybe_num_nodes index dim_size) dropout_p
           = Inr alpha
       \<and> (\<exists>v'. rbind (view_rows alpha H) (mul_inplace (h v)) = Inr v'
              \<and> snd (sparse_multi_head_attention epsilon keep h q k v index dim_size dropout_p)
                  = h(v := v'))"
  using assms
  by (auto simp: sparse_multi_head_attention_def Let_def rbind_eq_Inr split: sum.splits)

lemma attention_mutation:
  assumes run: "fst (sparse_multi_head_attention epsilon keep h q k v index dim_size dropout_p)
             = Inr (out', alpha)"
    and sq: "shape (h q) = [S, H, E]" and sk: "shape (h k) = [S, H, E]"
    and sv: "shape (h v) = [S, H, O']"
  shows "shape (snd (sparse_multi_head_attention epsilon keep h q k v index dim_size dropout_p) v)
           = [S, H, O']
       \<and> (\<forall>s a c. s < S \<and> a < H \<and> c < O' \<longrightarrow>
             elem (snd (sparse_multi_head_attention epsilon keep h q k v index dim_size dropout_p) v)
                  [s, a, c]
             = elem (h v) [s, a, c] * elem alpha [s, a])"
proof -
  let ?R = "sparse_multi_head_attention epsilon keep h q k v index dim_size dropout_p"
  from attention_success_parts [OF run sq] obtain v' where
    aw: "attention_weights epsilon keep (h q) (h k) E index (maybe_num_nodes index dim_size) dropout_p
           = Inr alpha"
    and v': "rbind (view_rows alpha H) (mul_inplace (h v)) = Inr v'"
    and hp: "snd ?R = h(v := v')"
    by blast
  have sa: "shape alpha = [S, H]" using attention_weights_shape [OF aw sq sk] .
  have H: "0 < H" using v' by (cases "H = 0") (simp_all add: view_rows_def)
  have bs: "broadcast_shapes [S, H, O'] [S, H, Suc 0] = Some [S, H, O']"
    using broadcast_shapes_update [of 2 "[S, H, O']" O' 1] by simp
  have v'eq: "v' = \<lparr>shape = [S, H, O'],
                    elem = (\<lambda>p. elem (h v) p
                       * elem alpha (unravel [S, H] (bproj [S, H, 1] p ! 0 * H + bproj [S, H, 1] p ! 1)))\<rparr>"
    using v' by (simp add: view_rows_2d [OF sa H] mul_inplace_def sv bs)
  have "elem v' [s, a, c] = elem (h v) [s, a, c] * elem alpha [s, a]"
    if "s < S" "a < H" "c < O'" for s a c
  proof -
    have "bproj [S, H, 1] [s, a, c] = [s, a, 0]"
      using that by (auto simp: bproj_def)
    then show ?thesis using that unravel_2d [of a H S s] by (simp add: v'eq)
  qed
  then show ?thesis using hp v'eq by simp
qed

lemma attention_scores_softmax:
  assumes bs: "broadcast_shapes (shape q) (shape k) = Some [S, H, E']"
    and len: "length index = S"
    and nonneg: "list_all (\<lambda>i. 0 \<le> i) index"
    and cnt: "group_count_ok index (Some N)"
  shows "\<exists>A a. shape A = [S, H] \<and> sparse_softmax epsilon A index (Some N) 0 = Inr a
            \<and> shape a = [S, H]
            \<and> (\<forall>p. inside [S, H] p \<longrightarrow> elem a p = softmax_spec epsilon A index 0 p)
            \<and> attention_weights epsilon keep q k E index N dropout_p
                = (if dropout_p > 0 then torch_dropout a dropout_p True keep else Inr a)"
proof -
  let ?qk = "\<lparr>shape = [S, H, E'],
              elem = (\<lambda>p. elem q (bproj (shape q) p) * elem k (bproj (shape k) p))\<rparr>"
  let ?s = "\<lparr>shape = [S, H], elem = (\<lambda>p. sum_list (lane ?qk (Suc (Suc 0)) p))\<rparr>"
  let ?A = "map_tensor (\<lambda>x. x / sqrt (real E)) ?s"
  have qk: "bin_op (*) q k = Inr ?qk" using bs by (simp add: bin_op_def)
  have s: "sum_dim ?qk (- 1) = Inr ?s" by (simp add: sum_dim_last)
  have sA: "shape ?A = [S, H]" by (simp add: map_tensor_def)
  have nd: "norm_dim (length (shape ?A)) 0 = Inr 0" by (simp add: sA norm_dim_def)
  have len': "length index = shape ?A ! 0" using len by (simp add: sA)
  from sparse_softmax_formula [OF nd len' nonneg cnt, of epsilon]
  obtain a where a: "sparse_softmax epsilon ?A index (Some N) 0 = Inr a" "shape a = shape ?A"
    and v: "\<forall>p. inside (shape ?A) p \<longrightarrow> elem a p = softmax_spec epsilon ?A index 0 p"
    by blast
  have "attention_weights epsilon keep q k E index N dropout_p
          = (if dropout_p > 0 then torch_dropout a dropout_p True keep else Inr a)"
    by (simp add: attention_weights_def qk s a(1))
  then show ?thesis using a v sA by (intro exI [of _ ?A] exI [of _ a]) simp
qed

lemma upt_3: "[0..<3] = [0, 1, 2]"
  by (simp add: upt_rec)

lemma attention_tail_runs:
  assumes sv: "shape v' = [S, H, O']"
    and len: "length index = S"
    and rng: "\<And>i. i \<in> set index \<Longrightarrow> 0 \<le> i \<and> i < N"
    and N: "0 \<le> N"
  shows "\<exists>out'. rbind (if length (shape v') \<le> 2 then Inl IndexError
                       else torch_zeros [N, int H, int (shape v' ! 2)]) (\<lambda>out'.
                rbind (broadcast_index index v' 0) (\<lambda>add_index.
                rbind (scatter_add_inplace out' 0 add_index v') (\<lambda>out'.
                Inr (out', alpha)))) = Inr (out', alpha)"
proof -
  define E :: "int tensor"
    where "E = \<lparr>shape = [S, H, O'], elem = (\<lambda>q. index ! (if length index = 1 then 0 else q ! 0))\<rparr>"
  let ?Z = "const_tensor [nat N, H, O'] (0::real)"
  have z: "torch_zeros [N, int H, int (shape v' ! 2)] = Inr ?Z"
    using N by (simp add: torch_zeros_def sv)
  have bi: "broadcast_index index v' 0 = Inr E"
    using len by (simp add: broadcast_index_def sv norm_dim_def E_def)
  have sE: "shape E = [S, H, O']" by (simp add: E_def)
  have Ein: "0 \<le> elem E p \<and> elem E p < int (nat N)" if "inside [S, H, O'] p" for p
  proof -
    have "p ! 0 < length index" using inside_nth [OF that, of 0] len by simp
    then have "index ! (if length index = 1 then 0 else p ! 0) \<in> set index"
      by (auto intro!: nth_mem)
    then show ?thesis using rng N by (simp add: E_def)
  qed
  have chk: "\<not> (\<exists>p \<in> set (all_indices (shape E)). elem E p < 0 \<or> int (shape ?Z ! 0) \<le> elem E p)"
  proof
    assume "\<exists>p \<in> set (all_indices (shape E)). elem E p < 0 \<or> int (shape ?Z ! 0) \<le> elem E p"
    then obtain p where "inside [S, H, O'] p" "elem E p < 0 \<or> int (shape ?Z ! 0) \<le> elem E p"
      unfolding sE by (meson all_indices_inside)
    with Ein [of p] show False by (simp add: const_tensor_def)
  qed
  have "\<exists>t. scatter_add_inplace ?Z 0 E v' = Inr t"
    unfolding scatter_add_inplace_def using chk
    by (simp add: norm_dim_def sE sv const_tensor_def upt_3)
  then show ?thesis using z bi by (auto simp: sv)
qed

lemma softmax_spec_bounds:
  assumes "d < length p" "p ! d < length index" "0 < epsilon"
  shows "0 < softmax_spec epsilon src index d p \<and> softmax_spec epsilon src index d p < 1"
proof -
  let ?M = "group_max src index d p"
  let ?xs = "map (\<lambda>j. exp (elem src (p[d := j]) - ?M)) (group_of index (p ! d))"
  have "exp (elem src (p[d := p ! d]) - ?M) \<in> set ?xs"
    using self_in_group [OF assms(2)] by (simp add: image_iff) (rule bexI [of _ "p ! d"], simp_all)
  then have "exp (elem src p - ?M) \<in> set ?xs" by simp
  then have le: "exp (elem src p - ?M) \<le> sum_list ?xs"
    by (intro member_le_sum_list_real) auto
  have pos: "0 < exp (elem src p - ?M)" by simp
  have spos: "0 < sum_list ?xs + epsilon" using le pos assms(3) by linarith
  have "exp (elem src p - ?M) / (sum_list ?xs + epsilon) < 1"
    using le spos assms(3) by (simp add: pos_divide_less_eq)
  moreover have "0 < exp (elem src p - ?M) / (sum_list ?xs + epsilon)"
    using spos pos by (intro divide_pos_pos)
  ultimately show ?thesis by (simp add: softmax_spec_def)
qed

lemma attention_runs:
  assumes sq: "shape (h q) = [S, H, E]"
    and bs: "broadcast_shapes (shape (h q)) (shape (h k)) = Some [S, H, E']"
    and sv: "shape (h v) = [S, H, O']"
    and H: "0 < H"
    and len: "length index = S"
    and nonneg: "list_all (\<lambda>i. 0 \<le> i) index"
    and cnt: "group_count_ok index dim_size"
    and dp: "dropout_p \<le> 1"
  shows "\<exists>out' alpha. fst (sparse_multi_head_attention epsilon keep h q k v index dim_size dropout_p)
                        = Inr (out', alpha)"
proof -
  let ?N = "maybe_num_nodes index dim_size"
  have N0: "0 \<le> ?N" and rng: "\<And>i. i \<in> set index \<Longrightarrow> 0 \<le> i \<and> i < ?N"
    using num_nodes_bounds [OF nonneg cnt] by blast+
  then have cnt': "group_count_ok index (Some ?N)"
    by (simp add: group_count_ok_def list_all_iff)
  from attention_scores_softmax [OF bs len nonneg cnt', of epsilon keep E dropout_p]
  obtain a where sa: "shape a = [S, H]"
    and aw: "attention_weights epsilon keep (h q) (h k) E index ?N dropout_p
              = (if dropout_p > 0 then torch_dropout a dropout_p True keep else Inr a)"
    by blast
  have "\<exists>alpha. attention_weights epsilon keep (h q) (h k) E index ?N dropout_p = Inr alpha
              \<and> shape alpha = [S, H]"
    unfolding aw using dp sa by (auto simp: torch_dropout_def)
  then obtain alpha where al: "attention_weights epsilon keep (h q) (h k) E index ?N dropout_p = Inr alpha"
    and sal: "shape alpha = [S, H]" by blast
  have bs': "broadcast_shapes [S, H, O'] [S, H, Suc 0] = Some [S, H, O']"
    using broadcast_shapes_update [of 2 "[S, H, O']" O' 1] by simp
  obtain v' where v': "rbind (view_rows alpha H) (mul_inplace (h v)) = Inr v'"
    and sv': "shape v' = [S, H, O']"
    by (simp add: view_rows_2d [OF sal H] mul_inplace_def sv bs')
  from attention_tail_runs [OF sv' len rng N0, where alpha = alpha]
  obtain out' where
    "rbind (if length (shape v') \<le> 2 then Inl IndexError
            else torch_zeros [?N, int H, int (shape v' ! 2)]) (\<lambda>out'.
       rbind (broadcast_index index v' 0) (\<lambda>add_index.
       rbind (scatter_add_inplace out' 0 add_index v') (\<lambda>out'.
       Inr (out', alpha)))) = Inr (out', alpha)"
    by blast
  then have "fst (sparse_multi_head_attention epsilon keep h q k v index dim_size dropout_p)
               = Inr (out', alpha)"
    by (simp add: sparse_multi_head_attention_def sq Let_def al v')
  then show ?thesis by blast
qed

text \<open>
  C5 (as amended).  There is no shape check at the boundary.  When the last axes of \<open>q\<close>
  and \<open>k\<close> differ and neither has length 1, the product \<open>q * k\<close> raises, and the call
  fails before any object is changed.  When one of them has length 1 the product broadcasts
  and a result is computed.
\<close>

theorem attention_rejects_incompatible_E:
  assumes "shape (h k) \<noteq> []" "last (shape (h q)) \<noteq> last (shape (h k))"
    "last (shape (h q)) \<noteq> 1" "last (shape (h k)) \<noteq> 1"
  shows "isl (fst (sparse_multi_head_attention epsilon keep h q k v index dim_size dropout_p))
       \<and> snd (sparse_multi_head_attention epsilon keep h q k v index dim_size dropout_p) = h"
proof (cases "\<exists>B H E. shape (h q) = [B, H, E]")
  case True
  then obtain B H E where s: "shape (h q) = [B, H, E]" by blast
  then have "shape (h q) \<noteq> []" by simp
  from attention_weights_last_mismatch [OF this assms]
  show ?thesis by (simp add: sparse_multi_head_attention_def s Let_def)
next
  case False
  then show ?thesis
    by (auto simp: sparse_multi_head_attention_def split: list.splits)
qed

theorem attention_rejects_incompatible_E_witness:
  "shape ((demo_heap_E(1 := from_list [1, 1, 3] [1, 2, 3])) 1) \<noteq> []
   \<and> last (shape ((demo_heap_E(1 := from_list [1, 1, 3] [1, 2, 3])) 0))
       \<noteq> last (shape ((demo_heap_E(1 := from_list [1, 1, 3] [1, 2, 3])) 1))
   \<and> last (shape ((demo_heap_E(1 := from_list [1, 1, 3] [1, 2, 3])) 0)) \<noteq> 1
   \<and> last (shape ((demo_heap_E(1 := from_list [1, 1, 3] [1, 2, 3])) 1)) \<noteq> 1
   \<and> isl (fst (sparse_multi_head_attention (5 / 10 ^ 8) keep_all
                (demo_heap_E(1 := from_list [1, 1, 3] [1, 2, 3])) 0 1 2 [0] None 0))
   \<and> snd (sparse_multi_head_attention (5 / 10 ^ 8) keep_all
                (demo_heap_E(1 := from_list [1, 1, 3] [1, 2, 3])) 0 1 2 [0] None 0)
       = demo_heap_E(1 := from_list [1, 1, 3] [1, 2, 3])"
proof -
  let ?h = "demo_heap_E(1 := from_list [1, 1, 3] [1, 2, 3])"
  have h1: "shape (?h 1) \<noteq> []" and h2: "last (shape (?h 0)) \<noteq> last (shape (?h 1))"
    and h3: "last (shape (?h 0)) \<noteq> 1" and h4: "last (shape (?h 1)) \<noteq> 1"
    by (simp_all add: demo_heap_E_def from_list_def)
  from attention_rejects_incompatible_E [OF h1 h2 h3 h4, of "5 / 10 ^ 8" keep_all 2 "[0]" None 0]
  show ?thesis using h1 h2 h3 h4 by blast
qed

text \<open>
  With \<open>E = 2\<close> for \<open>q\<close> and \<open>E = 1\<close> for \<open>k\<close> the call is not rejected.
\<close>

theorem attention_broadcasts_E_counterexample:
  "last (shape (demo_heap_E 0)) \<noteq> last (shape (demo_heap_E 1))
   \<and> \<not> isl (fst (sparse_multi_head_attention (5 / 10 ^ 8) keep_all demo_heap_E 0 1 2 [0] None 0))"
proof -
  have sq: "shape (demo_heap_E 0) = [1, 1, 2]" and sv: "shape (demo_heap_E 2) = [1, 1, 1]"
    and bs: "broadcast_shapes (shape (demo_heap_E 0)) (shape (demo_heap_E 1)) = Some [1, 1, 2]"
    by (simp_all add: demo_heap_E_def from_list_def broadcast_shapes_def)
  have "\<exists>out' alpha. fst (sparse_multi_head_attention (5 / 10 ^ 8) keep_all demo_heap_E 0 1 2 [0] None 0)
          = Inr (out', alpha)"
    by (rule attention_runs [OF sq bs sv]) (simp_all add: group_count_ok_def)
  then show ?thesis by (auto simp: demo_heap_E_def from_list_def)
qed

lemma attention_alpha_is_softmax:
  assumes run: "fst (sparse_multi_head_attention epsilon keep h q k v index dim_size dropout_p)
                 = Inr (out', alpha)"
    and sq: "shape (h q) = [S, H, E]"
    and bs: "broadcast_shapes (shape (h q)) (shape (h k)) = Some [S, H, E']"
    and len: "length index = S"
    and nonneg: "list_all (\<lambda>i. 0 \<le> i) index"
    and cnt: "group_count_ok index dim_size"
  shows "\<exists>A a. shape A = [S, H]
            \<and> sparse_softmax epsilon A index (Some (maybe_num_nodes index dim_size)) 0 = Inr a
            \<and> shape a = [S, H]
            \<and> (\<forall>p. inside [S, H] p \<longrightarrow> elem a p = softmax_spec epsilon A index 0 p)
            \<and> (if dropout_p > 0 then torch_dropout a dropout_p True keep else Inr a) = Inr alpha"
proof -
  let ?N = "maybe_num_nodes index dim_size"
  have N0: "0 \<le> ?N" and rng: "\<And>i. i \<in> set index \<Longrightarrow> 0 \<le> i \<and> i < ?N"
    using num_nodes_bounds [OF nonneg cnt] by blast+
  then have cnt': "group_count_ok index (Some ?N)"
    by (simp add: group_count_ok_def list_all_iff)
  from attention_success_parts [OF run sq]
  have aw: "attention_weights epsilon keep (h q) (h k) E index ?N dropout_p = Inr alpha" by blast
  from attention_scores_softmax [OF bs len nonneg cnt', of epsilon keep E dropout_p]
  obtain A a where "shape A = [S, H]" "sparse_softmax epsilon A index (Some ?N) 0 = Inr a"
    "shape a = [S, H]" "\<forall>p. inside [S, H] p \<longrightarrow> elem a p = softmax_spec epsilon A index 0 p"
    "attention_weights epsilon keep (h q) (h k) E index ?N dropout_p
      = (if dropout_p > 0 then torch_dropout a dropout_p True keep else Inr a)"
    by blast
  then show ?thesis using aw by (intro exI [of _ A] exI [of _ a]) simp
qed

text \<open>
  C2 (as amended).  The call changes no object other than \<open>v\<close>: in particular \<open>q\<close> and
  \<open>k\<close> keep their values when they are not the same object as \<open>v\<close>, whether the call
  returns or raises; the index is passed by value.  The object \<open>v\<close> is overwritten in
  place: after a call that returns, with \<open>q\<close>, \<open>k\<close> of shape \<open>[S, H, E]\<close> and \<open>v\<close> of shape
  \<open>[S, H, O]\<close>, its entry at \<open>[s, a, c]\<close> is the former entry times the returned attention
  weight at \<open>[s, a]\<close>.
\<close>

theorem attention_effect_on_inputs:
  "(\<forall>a. a \<noteq> v \<longrightarrow>
       snd (sparse_multi_head_attention epsilon keep h q k v index dim_size dropout_p) a = h a)
   \<and> (shape (h q) = [S, H, E] \<and> shape (h k) = [S, H, E] \<and> shape (h v) = [S, H, O']
        \<and> fst (sparse_multi_head_attention epsilon keep h q k v index dim_size dropout_p)
            = Inr (out', alpha) \<longrightarrow>
       shape (snd (sparse_multi_head_attention epsilon keep h q k v index dim_size dropout_p) v)
         = [S, H, O']
       \<and> (\<forall>s a c. s < S \<and> a < H \<and> c < O' \<longrightarrow>
             elem (snd (sparse_multi_head_attention epsilon keep h q k v index dim_size dropout_p) v)
                  [s, a, c]
             = elem (h v) [s, a, c] * elem alpha [s, a]))"
  using attention_frame [of _ v epsilon keep h q k index dim_size dropout_p]
    attention_mutation [of epsilon keep h q k v index dim_size dropout_p out' alpha S H E O']
  by blast

lemma demo_heap_shapes:
  "shape (demo_heap a) = [2, 1, 1]"
  "broadcast_shapes (shape (demo_heap a)) (shape (demo_heap b)) = Some [2, 1, 1]"
  by (simp_all add: demo_heap_def from_list_def broadcast_shapes_same)

lemma demo_heap_runs:
  "\<exists>out' alpha. fst (sparse_multi_head_attention (5 / 10 ^ 8) keep_all demo_heap 0 1 2 [0, 0] None 0)
       = Inr (out', alpha)"
  by (rule attention_runs [OF demo_heap_shapes(1) demo_heap_shapes(2) demo_heap_shapes(1)])
     (simp_all add: group_count_ok_def)

theorem attention_effect_on_inputs_witness:
  "(0::nat) \<noteq> 2
   \<and> snd (sparse_multi_head_attention (5 / 10 ^ 8) keep_all demo_heap 0 1 2 [0, 0] None 0) 0
       = demo_heap 0
   \<and> shape (demo_heap 0) = [2, 1, 1] \<and> shape (demo_heap 1) = [2, 1, 1]
   \<and> shape (demo_heap 2) = [2, 1, 1]
   \<and> \<not> isl (fst (sparse_multi_head_attention (5 / 10 ^ 8) keep_all demo_heap 0 1 2 [0, 0] None 0))
   \<and> (1::nat) < 2 \<and> (0::nat) < 1
   \<and> elem (snd (sparse_multi_head_attention (5 / 10 ^ 8) keep_all demo_heap 0 1 2 [0, 0] None 0) 2)
        [1, 0, 0]
      = 4 * elem (snd (projr (fst (sparse_multi_head_attention (5 / 10 ^ 8) keep_all demo_heap
                                     0 1 2 [0, 0] None 0)))) [1, 0]"
proof -
  let ?R = "sparse_multi_head_attention (5 / 10 ^ 8) keep_all demo_heap 0 1 2 [0, 0] None 0"
  from demo_heap_runs obtain out' alpha where run: "fst ?R = Inr (out', alpha)" by blast
  have v4: "elem (demo_heap 2) [1, 0, 0] = 4"
    by (simp add: demo_heap_def from_list_def flat_index_def)
  from attention_effect_on_inputs [of 2 "5 / 10 ^ 8" keep_all demo_heap 0 1 "[0, 0]" None 0
         2 1 1 1 out' alpha]
  have f: "snd ?R 0 = demo_heap 0"
    and m: "elem (snd ?R 2) [1, 0, 0] = elem (demo_heap 2) [1, 0, 0] * elem alpha [1, 0]"
    using run demo_heap_shapes(1) by auto
  show ?thesis using f m run v4 demo_heap_shapes(1) by simp
qed

text \<open>
  The value tensor does not hold the same values after the call: its first entry, 3 before
  the call, is 3 times an attention weight smaller than 1 afterwards.
\<close>

theorem attention_mutates_v_counterexample:
  "elem (snd (sparse_multi_head_attention (5 / 10 ^ 8) keep_all demo_heap 0 1 2 [0, 0] None 0) 2)
        [0, 0, 0]
   \<noteq> elem (demo_heap 2) [0, 0, 0]"
proof -
  let ?R = "sparse_multi_head_attention (5 / 10 ^ 8) keep_all demo_heap 0 1 2 [0, 0] None 0"
  from demo_heap_runs obtain out' alpha where run: "fst ?R = Inr (out', alpha)" by blast
  from attention_alpha_is_softmax [OF run demo_heap_shapes(1) demo_heap_shapes(2)]
  obtain A where al: "\<forall>p. inside [2, 1] p \<longrightarrow> elem alpha p = softmax_spec (5 / 10 ^ 8) A [0, 0] 0 p"
    by (auto simp: group_count_ok_def)
  have "inside [2, 1] [0, 0]" by (simp add: inside_def)
  then have "elem alpha [0, 0] = softmax_spec (5 / 10 ^ 8) A [0, 0] 0 [0, 0]" using al by blast
  moreover have "softmax_spec (5 / 10 ^ 8) A [0, 0] 0 [0, 0] < 1"
    using softmax_spec_bounds [of 0 "[0, 0]" "[0, 0]" "5 / 10 ^ 8" A] by simp
  ultimately have lt: "elem alpha [0, 0] < 1" by simp
  from attention_mutation [OF run demo_heap_shapes(1) demo_heap_shapes(1) demo_heap_shapes(1)]
  have "elem (snd ?R 2) [0, 0, 0] = elem (demo_heap 2) [0, 0, 0] * elem alpha [0, 0]" by simp
  moreover have "elem (demo_heap 2) [0, 0, 0] = 3"
    by (simp add: demo_heap_def from_list_def flat_index_def)
  ultimately show ?thesis using lt by simp
qed

lemma attention_weights_group_sum:
  assumes sq: "shape (h q) = [S, H, E]" and sk: "shape (h k) = [S, H, E]"
    and len: "length index = S"
    and nonneg: "list_all (\<lambda>i. 0 \<le> i) index"
    and cnt: "group_count_ok index dim_size"
    and eps: "0 < epsilon"
    and dp: "dropout_p \<le> 0"
    and run: "fst (sparse_multi_head_attention epsilon keep h q k v index dim_size dropout_p)
               = Inr (out', alpha)"
    and s: "s < S" and a: "a < H"
  shows "\<bar>group_weight_sum alpha index s a - 1\<bar> < epsilon"
proof -
  let ?N = "maybe_num_nodes index dim_size"
  have bs: "broadcast_shapes (shape (h q)) (shape (h k)) = Some [S, H, E]"
    by (simp add: sq sk broadcast_shapes_same)
  from attention_alpha_is_softmax [OF run sq bs len nonneg cnt] dp
  obtain A where sA: "shape A = [S, H]"
    and sm: "sparse_softmax epsilon A index (Some ?N) 0 = Inr alpha"
    by auto
  have N0: "0 \<le> ?N" and rng: "\<And>i. i \<in> set index \<Longrightarrow> 0 \<le> i \<and> i < ?N"
    using num_nodes_bounds [OF nonneg cnt] by blast+
  then have cnt': "group_count_ok index (Some ?N)"
    by (simp add: group_count_ok_def list_all_iff)
  have nd: "norm_dim (length (shape A)) 0 = Inr 0" by (simp add: sA norm_dim_def)
  have len': "length index = shape A ! 0" using len by (simp add: sA)
  have ins: "inside (shape A) [s, a]" using s a by (simp add: sA inside_def)
  from softmax_output_group_sum [OF nd len' nonneg cnt' eps sm ins]
  show ?thesis by (simp add: group_weight_sum_def)
qed






end
